theory Spec2Isabelle
  imports Main
begin

text \<open>
  A model of the music library client: the bulk uploader of the admin dashboard
  (\<^verbatim>\<open>handleFileChange\<close>, \<^verbatim>\<open>processFile\<close>, \<^verbatim>\<open>handleProcessQueue\<close>,
  \<^verbatim>\<open>handleAddSongsToLibrary\<close>), the single-song form (\<^verbatim>\<open>handleFetchInfo\<close>) and
  \<^verbatim>\<open>addSongs\<close> of the application with the database behind it. Component state is passed
  explicitly; what a handler awaits from outside (the model, the network, the clock, the
  database) is a parameter; a thrown exception or a rejected promise is a value.
\<close>

section \<open>Values exchanged with the browser and the network\<close>

text \<open>
  A JavaScript \<^verbatim>\<open>File\<close>: its name, its modification time, its MIME type and its bytes.
\<close>

record jsfile =
  name :: string
  lastModified :: int
  ftype :: string
  bytes :: string

text \<open>The result of \<^verbatim>\<open>response.blob()\<close>: a MIME type and the bytes.\<close>

record jsblob =
  btype :: string
  bdata :: string

text \<open>
  A thrown value (an \<^verbatim>\<open>Error\<close>, or whatever a rejected promise carries) is seen by the
  handlers only through its \<^verbatim>\<open>message\<close> property, which may be absent.
\<close>

datatype thrown = Thrown (message: "string option")

definition new_Error :: "string \<Rightarrow> thrown" where
  "new_Error msg = Thrown (Some msg)"

text \<open>
  Reading a property of \<^verbatim>\<open>undefined\<close> throws a \<^verbatim>\<open>TypeError\<close>; the text of its message
  depends on the engine and is kept abstract as the word itself.
\<close>

definition TypeError :: thrown where
  "TypeError = new_Error ''TypeError''"

text \<open>
  A property that holds a string or is \<^verbatim>\<open>undefined\<close> is a \<^typ>\<open>string option\<close>. It is
  falsy when it is absent or the empty string; \<^verbatim>\<open>x || d\<close> is \<open>orElse x d\<close>.
\<close>

fun truthy :: "string option \<Rightarrow> bool" where
  "truthy None = False"
| "truthy (Some s) = (s \<noteq> [])"

fun orElse :: "string option \<Rightarrow> string \<Rightarrow> string" where
  "orElse None d = d"
| "orElse (Some s) d = (if s = [] then d else s)"

text \<open>One track of the catalog's answer; every field may be missing.\<close>

record track =
  trackName :: "string option"
  artistName :: "string option"
  collectionName :: "string option"
  artworkUrl100 :: "string option"

record itunesData =
  resultCount :: int
  results :: "track list"

text \<open>
  An HTTP response: the \<^verbatim>\<open>ok\<close> flag (status in the 2xx range), what \<^verbatim>\<open>json()\<close>
  gives (it throws on a body that is not JSON) and what \<^verbatim>\<open>blob()\<close> gives (it throws when
  the body cannot be read).
\<close>

record response =
  ok :: bool
  json :: "thrown + itunesData"
  blob :: "thrown + jsblob"

text \<open>
  The parsed answer of the model, \<^verbatim>\<open>JSON.parse(geminiResponse.text.trim())\<close>, with its two
  fields (strings by the response schema, possibly missing).
\<close>

record geminiResult =
  g_title :: "string option"
  g_artist :: "string option"

text \<open>
  The outside world of the pipeline: the model call together with the parsing of its answer,
  \<^verbatim>\<open>fetch\<close>, and the clock that stamps a new \<^verbatim>\<open>File\<close>. A rejected promise or a thrown
  exception is \<open>Inl\<close>. Every call is assumed to settle.
\<close>

record env =
  generateContent :: "string \<Rightarrow> thrown + geminiResult"
  fetch :: "string \<Rightarrow> thrown + response"
  dateNow :: int

text \<open>The external calls a run makes, in order.\<close>

datatype request = GenerateContent string | Fetch string

section \<open>Strings\<close>

text \<open>
  \<^verbatim>\<open>s.replace(pat, rep)\<close> with a string pattern: only the first occurrence is replaced.
\<close>

fun js_replace :: "string \<Rightarrow> string \<Rightarrow> string \<Rightarrow> string" where
  "js_replace pat rep [] = (if pat = [] then rep else [])"
| "js_replace pat rep (c # cs) =
     (if take (length pat) (c # cs) = pat then rep @ drop (length pat) (c # cs)
      else c # js_replace pat rep cs)"

text \<open>\<^verbatim>\<open>s.includes(t)\<close>: \<open>t\<close> occurs in \<open>s\<close> as a contiguous substring.\<close>

fun js_includes :: "string \<Rightarrow> string \<Rightarrow> bool" where
  "js_includes [] t = (t = [])"
| "js_includes (c # cs) t = (take (length t) (c # cs) = t \<or> js_includes cs t)"

definition hexDigit :: "nat \<Rightarrow> char" where
  "hexDigit n = ''0123456789ABCDEF'' ! n"

definition unreserved :: "char \<Rightarrow> bool" where
  "unreserved c =
     (c \<in> set ''ABCDEFGHIJKLMNOPQRSTUVWXYZabcdefghijklmnopqrstuvwxyz0123456789-_.!~*()''
      \<or> c = CHR 0x27)"

text \<open>
  \<^verbatim>\<open>encodeURIComponent\<close> on the UTF-8 bytes of the string: every byte outside the unreserved
  set becomes \<^verbatim>\<open>%XX\<close>.
\<close>

definition encodeURIComponent :: "string \<Rightarrow> string" where
  "encodeURIComponent s =
     concat (map (\<lambda>c. if unreserved c then [c]
                       else [CHR ''%'', hexDigit (of_char c div 16), hexDigit (of_char c mod 16)]) s)"

section \<open>The bulk uploader\<close>

datatype status = Pending | Processing | Success | Error

record songDetails =
  title :: string
  artist :: string
  album :: string

text \<open>
  \<^verbatim>\<open>StagedFile\<close>; its fields carry the prefix \<open>sf_\<close>. The three optional fields are
  \<^verbatim>\<open>undefined\<close> until the pipeline sets them.
\<close>

record StagedFile =
  sf_id :: string
  sf_file :: jsfile
  sf_status :: status
  sf_songDetails :: "songDetails option"
  sf_coverArtFile :: "jsfile option"
  sf_error :: "string option"

definition geminiPrompt :: "string \<Rightarrow> string" where
  "geminiPrompt fileName =
     ''Extract the artist and title from this filename: '' @ [CHR 0x22] @ fileName @ [CHR 0x22]
       @ ''. Assume '' @ [CHR 0x22] @ ''Artist - Title'' @ [CHR 0x22] @ '' or similar formats.''"

definition itunesSearchUrl :: "string \<Rightarrow> string" where
  "itunesSearchUrl term =
     ''https://itunes.apple.com/search?term='' @ encodeURIComponent term @ ''&entity=song&limit=1''"

text \<open>\<^verbatim>\<open>new File([artBlob], 'cover.jpg', { type: artBlob.type })\<close>\<close>

definition coverFile :: "env \<Rightarrow> jsblob \<Rightarrow> jsfile" where
  "coverFile e b = \<lparr>name = ''cover.jpg'', lastModified = dateNow e, ftype = btype b, bytes = bdata b\<rparr>"

definition highRes :: "string option \<Rightarrow> string" where
  "highRes art = js_replace ''100x100'' ''600x600'' (orElse art [])"

text \<open>
  \<^verbatim>\<open>processFile\<close>: the requests it made, and either the value it threw or what it returned.
  The last step, from the top result on, is \<open>fetchArtwork\<close>.
\<close>

definition fetchArtwork ::
  "env \<Rightarrow> request list \<Rightarrow> songDetails \<Rightarrow> track \<Rightarrow> request list \<times> (thrown + songDetails \<times> jsfile)" where
  "fetchArtwork e reqs details songData =
     (let highResArtworkUrl = highRes (artworkUrl100 songData) in
      if highResArtworkUrl = [] then (reqs, Inl (new_Error ''Cover art not found.''))
      else
        (case fetch e highResArtworkUrl of
           Inl ex \<Rightarrow> (reqs @ [Fetch highResArtworkUrl], Inl ex)
         | Inr artResponse \<Rightarrow>
             if \<not> ok artResponse
             then (reqs @ [Fetch highResArtworkUrl], Inl (new_Error ''Failed to download cover art.''))
             else
               (case blob artResponse of
                  Inl ex \<Rightarrow> (reqs @ [Fetch highResArtworkUrl], Inl ex)
                | Inr artBlob \<Rightarrow>
                    (reqs @ [Fetch highResArtworkUrl], Inr (details, coverFile e artBlob)))))"

definition processFile :: "env \<Rightarrow> jsfile \<Rightarrow> request list \<times> (thrown + songDetails \<times> jsfile)" where
  "processFile e f =
     (let prompt = geminiPrompt (name f) in
      case generateContent e prompt of
        Inl ex \<Rightarrow> ([GenerateContent prompt], Inl ex)
      | Inr geminiResult \<Rightarrow>
          if \<not> truthy (g_title geminiResult) \<or> \<not> truthy (g_artist geminiResult)
          then ([GenerateContent prompt], Inl (new_Error ''AI could not determine title and artist.''))
          else
            (let t = orElse (g_title geminiResult) [];
                 a = orElse (g_artist geminiResult) [];
                 url = itunesSearchUrl (a @ '' '' @ t);
                 reqs = [GenerateContent prompt, Fetch url] in
             case fetch e url of
               Inl ex \<Rightarrow> (reqs, Inl ex)
             | Inr itunesResponse \<Rightarrow>
                 if \<not> ok itunesResponse then (reqs, Inl (new_Error ''iTunes search failed.''))
                 else
                   (case json itunesResponse of
                      Inl ex \<Rightarrow> (reqs, Inl ex)
                    | Inr itunesData \<Rightarrow>
                        if resultCount itunesData = 0
                        then (reqs, Inl (new_Error ''Song not found on iTunes.''))
                        else
                          (case results itunesData of
                             [] \<Rightarrow> (reqs, Inl TypeError)
                           | songData # _ \<Rightarrow>
                               fetchArtwork e reqs
                                 \<lparr>title = orElse (trackName songData) t,
                                  artist = orElse (artistName songData) a,
                                  album = orElse (collectionName songData) t\<rparr>
                                 songData))))"

text \<open>
  The state of the \<^verbatim>\<open>BulkUploader\<close> component. Two logs record its effects: \<open>requests\<close>,
  the external calls made so far, and \<open>history\<close>, the successive values given to
  \<^verbatim>\<open>stagedFiles\<close> by \<^verbatim>\<open>setStagedFiles\<close>, oldest first.
\<close>

record BulkUploader =
  stagedFiles :: "StagedFile list"
  isProcessing :: bool
  processedCount :: nat
  requests :: "request list"
  history :: "StagedFile list list"

definition setStagedFiles :: "(StagedFile list \<Rightarrow> StagedFile list) \<Rightarrow> BulkUploader \<Rightarrow> BulkUploader" where
  "setStagedFiles f u =
     u\<lparr>stagedFiles := f (stagedFiles u), history := history u @ [f (stagedFiles u)]\<rparr>"





text \<open>The three updaters that \<^verbatim>\<open>handleProcessQueue\<close> passes to \<^verbatim>\<open>setStagedFiles\<close>.\<close>

definition markProcessing :: "string \<Rightarrow> StagedFile list \<Rightarrow> StagedFile list" where
  "markProcessing i prev = map (\<lambda>sf. if sf_id sf = i then sf\<lparr>sf_status := Processing\<rparr> else sf) prev"

definition markSuccess :: "string \<Rightarrow> songDetails \<Rightarrow> jsfile \<Rightarrow> StagedFile list \<Rightarrow> StagedFile list" where
  "markSuccess i details cover prev =
     map (\<lambda>sf. if sf_id sf = i
                then sf\<lparr>sf_status := Success, sf_songDetails := Some details,
                        sf_coverArtFile := Some cover\<rparr>
                else sf) prev"

definition markError :: "string \<Rightarrow> thrown \<Rightarrow> StagedFile list \<Rightarrow> StagedFile list" where
  "markError i ex prev =
     map (\<lambda>sf. if sf_id sf = i
                then sf\<lparr>sf_status := Error,
                        sf_error := Some (orElse (message ex) ''An unknown error occurred'')\<rparr>
                else sf) prev"

text \<open>
  The loop of \<^verbatim>\<open>handleProcessQueue\<close> over the items of the list the handler closed over;
  the updaters act on the current state. The handler runs to its end before any other handler
  of the component runs.
\<close>

fun processQueue :: "env \<Rightarrow> StagedFile list \<Rightarrow> nat \<Rightarrow> BulkUploader \<Rightarrow> BulkUploader" where
  "processQueue e [] currentProcessed u = u"
| "processQueue e (stagedFile # rest) currentProcessed u =
     (if sf_status stagedFile \<noteq> Pending
      then processQueue e rest (currentProcessed + 1) (u\<lparr>processedCount := currentProcessed + 1\<rparr>)
      else
        (let u1 = setStagedFiles (markProcessing (sf_id stagedFile)) u;
             run = processFile e (sf_file stagedFile);
             u2 = u1\<lparr>requests := requests u1 @ fst run\<rparr>;
             u3 = (case snd run of
                     Inr (details, cover) \<Rightarrow>
                       setStagedFiles (markSuccess (sf_id stagedFile) details cover) u2
                   | Inl ex \<Rightarrow> setStagedFiles (markError (sf_id stagedFile) ex) u2)
         in processQueue e rest (currentProcessed + 1) (u3\<lparr>processedCount := currentProcessed + 1\<rparr>)))"

definition handleProcessQueue :: "env \<Rightarrow> BulkUploader \<Rightarrow> BulkUploader" where
  "handleProcessQueue e u =
     (processQueue e (stagedFiles u) 0 (u\<lparr>isProcessing := True, processedCount := 0\<rparr>))
       \<lparr>isProcessing := False\<rparr>"


section \<open>The application: object URLs, the store, \<^verbatim>\<open>addSongs\<close>\<close>

record SongData = songDetails +
  audioFile :: jsfile
  coverArtFile :: jsfile

text \<open>\<^verbatim>\<open>StoredSong\<close> and \<^verbatim>\<open>Song\<close>; their \<^verbatim>\<open>id\<close> fields are \<open>stored_id\<close> and \<open>song_id\<close>.\<close>

record StoredSong = SongData +
  stored_id :: string

text \<open>
  An object URL is an opaque unique string minted by the browser; it is modelled by its
  serial number. The browser's URL store knows the next serial number and which URLs are live
  (not which file each one denotes).
\<close>

datatype objectUrl = BlobUrl nat

record Song = songDetails +
  song_id :: string
  audioSrc :: objectUrl
  coverArtSrc :: objectUrl

record urlStore =
  nextUrl :: nat
  live :: "nat set"

definition createObjectURL :: "jsfile \<Rightarrow> urlStore \<Rightarrow> objectUrl \<times> urlStore" where
  "createObjectURL f s =
     (BlobUrl (nextUrl s), s\<lparr>nextUrl := Suc (nextUrl s), live := insert (nextUrl s) (live s)\<rparr>)"

fun revokeObjectURL :: "objectUrl \<Rightarrow> urlStore \<Rightarrow> urlStore" where
  "revokeObjectURL (BlobUrl n) s = s\<lparr>live := live s - {n}\<rparr>"

text \<open>
  What \<^verbatim>\<open>App\<close> holds and reaches: the song list, the object store of the database (keyed by
  id) and the URL store.
\<close>

record App =
  songs :: "Song list"
  db :: "string \<Rightarrow> StoredSong option"
  urls :: urlStore

text \<open>
  The platform under \<^verbatim>\<open>App\<close>: \<open>isoNow k\<close> is the text of the \<open>k\<close>-th
  \<^verbatim>\<open>new Date().toISOString()\<close> of a call, and \<open>txFails\<close> tells whether the database
  transaction for the given records fails.
\<close>

record platform =
  isoNow :: "nat \<Rightarrow> string"
  txFails :: "StoredSong list \<Rightarrow> bool"

text \<open>\<^verbatim>\<open>addSongsToDB\<close>: \<open>None\<close> when the promise rejects; a failed transaction writes nothing.\<close>

definition addSongsToDB ::
  "platform \<Rightarrow> StoredSong list \<Rightarrow> (string \<Rightarrow> StoredSong option) \<Rightarrow> (string \<Rightarrow> StoredSong option) option" where
  "addSongsToDB p ss store =
     (if txFails p ss then None else Some (fold (\<lambda>song m. m(stored_id song \<mapsto> song)) ss store))"

text \<open>The \<^verbatim>\<open>forEach\<close> of \<^verbatim>\<open>addSongs\<close>, at its \<open>k\<close>-th item.\<close>

fun prepareSongs ::
  "platform \<Rightarrow> nat \<Rightarrow> SongData list \<Rightarrow> urlStore \<Rightarrow> StoredSong list \<times> Song list \<times> urlStore" where
  "prepareSongs p k [] us = ([], [], us)"
| "prepareSongs p k (d # ds) us =
     (let i = isoNow p k @ ''-'' @ title d;
          a = createObjectURL (audioFile d) us;
          c = createObjectURL (coverArtFile d) (snd a);
          more = prepareSongs p (Suc k) ds (snd c)
      in (\<lparr>title = title d, artist = artist d, album = album d,
           audioFile = audioFile d, coverArtFile = coverArtFile d, stored_id = i\<rparr> # fst more,
          \<lparr>title = title d, artist = artist d, album = album d,
           song_id = i, audioSrc = fst a, coverArtSrc = fst c\<rparr> # fst (snd more),
          snd (snd more)))"

definition revokeAll :: "Song list \<Rightarrow> urlStore \<Rightarrow> urlStore" where
  "revokeAll display us =
     fold (\<lambda>song s. revokeObjectURL (coverArtSrc song) (revokeObjectURL (audioSrc song) s)) display us"

definition addSongs :: "platform \<Rightarrow> SongData list \<Rightarrow> App \<Rightarrow> App" where
  "addSongs p newSongsData app =
     (let prepared = prepareSongs p 0 newSongsData (urls app);
          newStoredSongs = fst prepared;
          newDisplaySongs = fst (snd prepared);
          us = snd (snd prepared)
      in case addSongsToDB p newStoredSongs (db app) of
           Some store \<Rightarrow> app\<lparr>songs := songs app @ newDisplaySongs, db := store, urls := us\<rparr>
         | None \<Rightarrow> app\<lparr>urls := revokeAll newDisplaySongs us\<rparr>)"

text \<open>
  \<^verbatim>\<open>handleAddSongsToLibrary\<close>. A \<^verbatim>\<open>success\<close> item without details or cover makes the
  handler throw a \<^verbatim>\<open>TypeError\<close> before the list is cleared: the result is then \<open>None\<close>.
\<close>

definition toSongData :: "StagedFile \<Rightarrow> SongData option" where
  "toSongData sf =
     (case sf_songDetails sf of
        None \<Rightarrow> None
      | Some d \<Rightarrow>
          (case sf_coverArtFile sf of
             None \<Rightarrow> None
           | Some c \<Rightarrow> Some \<lparr>title = title d, artist = artist d, album = album d,
                              audioFile = sf_file sf, coverArtFile = c\<rparr>))"

definition handleAddSongsToLibrary ::
  "platform \<Rightarrow> BulkUploader \<times> App \<Rightarrow> (BulkUploader \<times> App) option" where
  "handleAddSongsToLibrary p ua =
     (let successfulFiles = filter (\<lambda>sf. sf_status sf = Success) (stagedFiles (fst ua)) in
      if length successfulFiles = 0 then Some ua
      else
        (case those (map toSongData successfulFiles) of
           None \<Rightarrow> None
         | Some newSongsData \<Rightarrow>
             Some ((setStagedFiles (\<lambda>_. []) (fst ua))\<lparr>processedCount := 0\<rparr>,
                   addSongs p newSongsData (snd ua))))"

section \<open>The single-song form\<close>

text \<open>
  The state of \<^verbatim>\<open>SingleSongUploader\<close> that \<^verbatim>\<open>handleFetchInfo\<close> reads and writes; the fields
  carry the prefix \<open>ss_\<close>. \<^verbatim>\<open>setArtist\<close> and \<^verbatim>\<open>setAlbum\<close> store whatever the catalog's
  record holds, also \<^verbatim>\<open>undefined\<close>.
\<close>

record SingleSongUploader =
  ss_title :: string
  ss_artist :: "string option"
  ss_album :: "string option"
  ss_coverArtFile :: "jsfile option"
  ss_coverArtPreview :: "objectUrl option"
  ss_isFetching :: bool
  ss_error :: "string option"

text \<open>
  The body of the \<^verbatim>\<open>try\<close> block of \<^verbatim>\<open>handleFetchInfo\<close>: the requests made, and either the
  value thrown together with the state reached by then, or the final state.
\<close>

definition fetchInfoArtwork ::
  "env \<Rightarrow> string \<Rightarrow> track \<Rightarrow> SingleSongUploader \<times> urlStore
     \<Rightarrow> request list \<times> (thrown \<times> SingleSongUploader \<times> urlStore + SingleSongUploader \<times> urlStore)" where
  "fetchInfoArtwork e url result fu =
     (let f1 = (fst fu)\<lparr>ss_artist := artistName result, ss_album := collectionName result\<rparr> in
      case artworkUrl100 result of
        None \<Rightarrow> ([Fetch url], Inl (TypeError, f1, snd fu))
      | Some art \<Rightarrow>
          (let highResArtworkUrl = js_replace ''100x100'' ''600x600'' art in
           case fetch e highResArtworkUrl of
             Inl ex \<Rightarrow> ([Fetch url, Fetch highResArtworkUrl], Inl (ex, f1, snd fu))
           | Inr artResponse \<Rightarrow>
               (case blob artResponse of
                  Inl ex \<Rightarrow> ([Fetch url, Fetch highResArtworkUrl], Inl (ex, f1, snd fu))
                | Inr artBlob \<Rightarrow>
                    (let artFile = coverFile e artBlob;
                         us1 = (case ss_coverArtPreview f1 of
                                  None \<Rightarrow> snd fu
                                | Some old \<Rightarrow> revokeObjectURL old (snd fu));
                         made = createObjectURL artFile us1
                     in ([Fetch url, Fetch highResArtworkUrl],
                         Inr (f1\<lparr>ss_coverArtFile := Some artFile,
                                 ss_coverArtPreview := Some (fst made)\<rparr>,
                              snd made))))))"

definition fetchInfoBody ::
  "env \<Rightarrow> SingleSongUploader \<times> urlStore
     \<Rightarrow> request list \<times> (thrown \<times> SingleSongUploader \<times> urlStore + SingleSongUploader \<times> urlStore)" where
  "fetchInfoBody e fu =
     (let url = itunesSearchUrl (ss_title (fst fu)) in
      case fetch e url of
        Inl ex \<Rightarrow> ([Fetch url], Inl (ex, fu))
      | Inr resp \<Rightarrow>
          if \<not> ok resp then ([Fetch url], Inl (new_Error ''Failed to fetch from iTunes.'', fu))
          else
            (case json resp of
               Inl ex \<Rightarrow> ([Fetch url], Inl (ex, fu))
             | Inr dat \<Rightarrow>
                 if resultCount dat = 0
                 then ([Fetch url],
                       Inl (new_Error (''No results found for '' @ [CHR 0x22] @ ss_title (fst fu)
                                         @ [CHR 0x22] @ ''.''), fu))
                 else
                   (case results dat of
                      [] \<Rightarrow> ([Fetch url], Inl (TypeError, fu))
                    | result # _ \<Rightarrow> fetchInfoArtwork e url result fu)))"

definition handleFetchInfo ::
  "env \<Rightarrow> SingleSongUploader \<times> urlStore \<Rightarrow> request list \<times> SingleSongUploader \<times> urlStore" where
  "handleFetchInfo e fu =
     (if ss_title (fst fu) = []
      then ([], (fst fu)\<lparr>ss_error := Some ''Please enter a song title to fetch info.''\<rparr>, snd fu)
      else
        (let run = fetchInfoBody e ((fst fu)\<lparr>ss_isFetching := True, ss_error := None\<rparr>, snd fu) in
         case snd run of
           Inl (ex, f1, us1) \<Rightarrow> (fst run, f1\<lparr>ss_error := message ex, ss_isFetching := False\<rparr>, us1)
         | Inr (f1, us1) \<Rightarrow> (fst run, f1\<lparr>ss_isFetching := False\<rparr>, us1)))"

section \<open>Notions used to state the properties\<close>

text \<open>
  Every run of \<^verbatim>\<open>processFile\<close> starts with exactly one call of the model, whose prompt names
  the file. The prompts in the log therefore tell which files were attempted, in order.
\<close>

definition prompts :: "request list \<Rightarrow> string list" where
  "prompts reqs = concat (map (\<lambda>r. case r of GenerateContent p \<Rightarrow> [p] | Fetch _ \<Rightarrow> []) reqs)"

text \<open>
  What one pass of the loop body makes of a staged file on its own: an item that is not
  \<^verbatim>\<open>pending\<close> is skipped, a pending one takes the outcome of \<^verbatim>\<open>processFile\<close>. That the
  loop does this to every item of a list with distinct ids is lemma
  \<open>handleProcessQueue_settle\<close>.
\<close>

definition settle :: "env \<Rightarrow> StagedFile \<Rightarrow> StagedFile" where
  "settle e sf =
     (if sf_status sf \<noteq> Pending then sf
      else (case snd (processFile e (sf_file sf)) of
              Inr (details, cover) \<Rightarrow>
                sf\<lparr>sf_status := Success, sf_songDetails := Some details, sf_coverArtFile := Some cover\<rparr>
            | Inl ex \<Rightarrow>
                sf\<lparr>sf_status := Error, sf_error := Some (orElse (message ex) ''An unknown error occurred'')\<rparr>))"

definition terminal :: "status \<Rightarrow> bool" where
  "terminal s = (s = Success \<or> s = Error)"

text \<open>
  One step of a status along \<^verbatim>\<open>pending\<close>, \<^verbatim>\<open>processing\<close>, then \<^verbatim>\<open>success\<close> or
  \<^verbatim>\<open>error\<close>, or no step at all.
\<close>

definition forward :: "status \<Rightarrow> status \<Rightarrow> bool" where
  "forward a b = (a = b \<or> (a = Pending \<and> b = Processing) \<or> (a = Processing \<and> terminal b))"




text \<open>The serial number of an object URL, and the serial numbers of the URLs that a list of songs
  refers to, in the order in which \<^verbatim>\<open>addSongs\<close> created them.\<close>

fun serial :: "objectUrl \<Rightarrow> nat" where
  "serial (BlobUrl n) = n"

definition songUrls :: "Song list \<Rightarrow> nat list" where
  "songUrls display = concat (map (\<lambda>song. [serial (audioSrc song), serial (coverArtSrc song)]) display)"

section \<open>Sample inputs\<close>

definition mp3 :: "string \<Rightarrow> jsfile" where
  "mp3 n = \<lparr>name = n, lastModified = 1700000000000, ftype = ''audio/mpeg'', bytes = ''ID3''\<rparr>"

definition staged :: "string \<Rightarrow> string \<Rightarrow> StagedFile" where
  "staged i n = \<lparr>sf_id = i, sf_file = mp3 n, sf_status = Pending,
                 sf_songDetails = None, sf_coverArtFile = None, sf_error = None\<rparr>"

definition bulk :: "StagedFile list \<Rightarrow> BulkUploader" where
  "bulk fs = \<lparr>stagedFiles = fs, isProcessing = False, processedCount = 0,
              requests = [], history = []\<rparr>"

definition helpTrack :: track where
  "helpTrack = \<lparr>trackName = Some ''Yesterday'', artistName = Some ''The Beatles'',
                 collectionName = Some ''Help!'', artworkUrl100 = Some ''http://x/100x100bb.jpg''\<rparr>"

definition catalogOf :: "int \<Rightarrow> track list \<Rightarrow> response" where
  "catalogOf n ts = \<lparr>ok = True, json = Inr \<lparr>resultCount = n, results = ts\<rparr>,
                      blob = Inr \<lparr>btype = ''application/json'', bdata = []\<rparr>\<rparr>"

definition jpeg :: jsblob where
  "jpeg = \<lparr>btype = ''image/jpeg'', bdata = ''JPEG''\<rparr>"

definition notFoundPage :: jsblob where
  "notFoundPage = \<lparr>btype = ''text/html'', bdata = ''Not Found''\<rparr>"

definition artOk :: response where
  "artOk = \<lparr>ok = True, json = Inl (new_Error ''SyntaxError''), blob = Inr jpeg\<rparr>"

definition art404 :: response where
  "art404 = \<lparr>ok = False, json = Inl (new_Error ''SyntaxError''), blob = Inr notFoundPage\<rparr>"

definition yesterday :: geminiResult where
  "yesterday = \<lparr>g_title = Some ''Yesterday'', g_artist = Some ''The Beatles''\<rparr>"

text \<open>
  A world where every step succeeds: the catalog is reached over \<^verbatim>\<open>https\<close>, the artwork
  over \<^verbatim>\<open>http\<close>.
\<close>

definition beatlesEnv :: env where
  "beatlesEnv =
     \<lparr>generateContent = (\<lambda>_. Inr yesterday),
      fetch = (\<lambda>u. if take 8 u = ''https://'' then Inr (catalogOf 1 [helpTrack]) else Inr artOk),
      dateNow = 0\<rparr>"

text \<open>The same world, where the model call fails for the file \<^verbatim>\<open>a.mp3\<close> only.\<close>

definition flakyEnv :: env where
  "flakyEnv =
     \<lparr>generateContent =
        (\<lambda>p. if p = geminiPrompt ''a.mp3'' then Inl (Thrown None) else Inr yesterday),
      fetch = (\<lambda>u. if take 8 u = ''https://'' then Inr (catalogOf 1 [helpTrack]) else Inr artOk),
      dateNow = 0\<rparr>"

text \<open>A list with one \<^verbatim>\<open>success\<close> item and one \<^verbatim>\<open>error\<close> item.\<close>

definition doneAndFailed :: BulkUploader where
  "doneAndFailed =
     bulk [(staged ''1'' ''a.mp3'')
             \<lparr>sf_status := Success,
              sf_songDetails := Some \<lparr>title = ''Yesterday'', artist = ''The Beatles'', album = ''Help!''\<rparr>,
              sf_coverArtFile := Some (coverFile beatlesEnv jpeg)\<rparr>,
           (staged ''2'' ''b.mp3'')\<lparr>sf_status := Error, sf_error := Some ''iTunes search failed.''\<rparr>]"

definition twoPending :: BulkUploader where
  "twoPending = bulk [staged ''1'' ''a.mp3'', staged ''2'' ''b.mp3'']"

definition oneStaged :: BulkUploader where
  "oneStaged = bulk [staged ''1'' ''a.mp3'']"

text \<open>
  Worlds where one step goes wrong: no match in the catalog, no artwork URL on the match, an
  artwork download answered with status 404.
\<close>

definition missEnv :: env where
  "missEnv =
     \<lparr>generateContent = (\<lambda>_. Inr yesterday),
      fetch = (\<lambda>u. Inr (catalogOf 0 [])),
      dateNow = 0\<rparr>"

definition noArtEnv :: env where
  "noArtEnv =
     \<lparr>generateContent = (\<lambda>_. Inr yesterday),
      fetch = (\<lambda>u. if take 8 u = ''https://''
                     then Inr (catalogOf 1 [helpTrack\<lparr>artworkUrl100 := None\<rparr>]) else Inr artOk),
      dateNow = 0\<rparr>"

definition art404Env :: env where
  "art404Env =
     \<lparr>generateContent = (\<lambda>_. Inr yesterday),
      fetch = (\<lambda>u. if take 8 u = ''https://'' then Inr (catalogOf 1 [helpTrack]) else Inr art404),
      dateNow = 0\<rparr>"

text \<open>The single-song form with only the title typed in, and a browser without object URLs.\<close>

definition titleOnly :: SingleSongUploader where
  "titleOnly = \<lparr>ss_title = ''Yesterday'', ss_artist = Some [], ss_album = Some [],
                 ss_coverArtFile = None, ss_coverArtPreview = None,
                 ss_isFetching = False, ss_error = None\<rparr>"

definition noUrls :: urlStore where
  "noUrls = \<lparr>nextUrl = 0, live = {}\<rparr>"

text \<open>An empty library, a platform whose clock stands still, and one whose database fails.\<close>

definition emptyApp :: App where
  "emptyApp = \<lparr>songs = [], db = Map.empty, urls = noUrls\<rparr>"

definition stillClock :: platform where
  "stillClock = \<lparr>isoNow = (\<lambda>_. ''2026-01-01T00:00:00.000Z''), txFails = (\<lambda>_. False)\<rparr>"

definition brokenStore :: platform where
  "brokenStore = \<lparr>isoNow = (\<lambda>_. ''2026-01-01T00:00:00.000Z''), txFails = (\<lambda>_. True)\<rparr>"

definition yesterdayData :: "string \<Rightarrow> SongData" where
  "yesterdayData n = \<lparr>title = ''Yesterday'', artist = ''The Beatles'', album = ''Help!'',
                       audioFile = mp3 n, coverArtFile = coverFile beatlesEnv jpeg\<rparr>"

text \<open>A list with a \<^verbatim>\<open>success\<close>, an \<^verbatim>\<open>error\<close> and a \<^verbatim>\<open>pending\<close> item, and a counter at 2.\<close>

definition mixedBatch :: BulkUploader where
  "mixedBatch =
     (bulk (stagedFiles doneAndFailed @ [staged ''3'' ''c.mp3'']))\<lparr>processedCount := 2\<rparr>"

definition nothingDone :: BulkUploader where
  "nothingDone =
     (bulk [(staged ''2'' ''b.mp3'')\<lparr>sf_status := Error, sf_error := Some ''iTunes search failed.''\<rparr>,
            staged ''3'' ''c.mp3''])\<lparr>processedCount := 2\<rparr>"



text \<open>
  Two staged files that carry one and the same id, and a world where the first file,
  \<^verbatim>\<open>a.mp3\<close>, is taken for the song Obscure by Nobody, for which the catalog answers \<open>r\<close>,
  while every other file succeeds as before.
\<close>

definition obscure :: geminiResult where
  "obscure = \<lparr>g_title = Some ''Obscure'', g_artist = Some ''Nobody''\<rparr>"

definition splitEnv :: "response \<Rightarrow> env" where
  "splitEnv r =
     \<lparr>generateContent = (\<lambda>p. if p = geminiPrompt ''a.mp3'' then Inr obscure else Inr yesterday),
      fetch = (\<lambda>u. if u = itunesSearchUrl ''Nobody Obscure'' then Inr r
                     else if take 8 u = ''https://'' then Inr (catalogOf 1 [helpTrack])
                     else Inr artOk),
      dateNow = 0\<rparr>"

definition twins :: BulkUploader where
  "twins = bulk [staged ''1'' ''a.mp3'', staged ''1'' ''b.mp3'']"



section \<open>The processing loop\<close>

lemma setStagedFiles_fields [simp]:
  "stagedFiles (setStagedFiles f u) = f (stagedFiles u)"
  "history (setStagedFiles f u) = history u @ [f (stagedFiles u)]"
  "requests (setStagedFiles f u) = requests u"
  "isProcessing (setStagedFiles f u) = isProcessing u"
  "processedCount (setStagedFiles f u) = processedCount u"
  by (simp_all add: setStagedFiles_def)

lemma prompts_append [simp]: "prompts (xs @ ys) = prompts xs @ prompts ys"
  by (simp add: prompts_def)

lemma prompts_fetchArtwork: "prompts (fst (fetchArtwork e reqs d t)) = prompts reqs"
  by (simp add: fetchArtwork_def Let_def prompts_def split: sum.splits)

lemma prompts_processFile: "prompts (fst (processFile e f)) = [geminiPrompt (name f)]"
  by (simp add: processFile_def Let_def prompts_fetchArtwork split: sum.splits list.splits)
     (simp add: prompts_def)

lemma processQueue_requests:
  "requests (processQueue e rest n u) =
     requests u @ concat (map (\<lambda>x. fst (processFile e (sf_file x))) (filter (\<lambda>x. sf_status x = Pending) rest))"
  by (induction rest arbitrary: n u) (simp_all add: Let_def split: sum.splits prod.splits)

lemma processQueue_isProcessing: "isProcessing (processQueue e rest n u) = isProcessing u"
  by (induction rest arbitrary: n u) (simp_all add: Let_def split: sum.splits prod.splits)

lemma processQueue_processedCount:
  "processedCount (processQueue e rest n u) = (if rest = [] then processedCount u else n + length rest)"
  by (induction rest arbitrary: n u) (simp_all add: Let_def split: sum.splits prod.splits)

lemma processQueue_length:
  "length (stagedFiles (processQueue e rest n u)) = length (stagedFiles u)"
  by (induction rest arbitrary: n u)
     (simp_all add: Let_def markProcessing_def markSuccess_def markError_def split: sum.splits prod.splits)

lemma mark_other:
  "\<forall>sf\<in>set xs. sf_id sf \<noteq> i \<Longrightarrow> map (\<lambda>sf. if sf_id sf = i then g sf else sf) xs = xs"
  by (induction xs) simp_all

lemma sf_id_settle [simp]: "sf_id (settle e sf) = sf_id sf"
  by (simp add: settle_def split: sum.splits prod.splits)

lemma distinct_mid:
  assumes "distinct (map f (pre @ x # rest))"
  shows "\<forall>s\<in>set pre. f s \<noteq> f x" and "\<forall>s\<in>set rest. f s \<noteq> f x"
proof -
  from assms have "f x \<notin> f ` set pre" and "f x \<notin> f ` set rest" by auto
  then show "\<forall>s\<in>set pre. f s \<noteq> f x" and "\<forall>s\<in>set rest. f s \<noteq> f x"
    by (metis imageI)+
qed

lemma processItem_marks:
  assumes "\<forall>s\<in>set A. sf_id s \<noteq> sf_id x" and "\<forall>s\<in>set B. sf_id s \<noteq> sf_id x"
  shows "markProcessing (sf_id x) (A @ x # B) = A @ x\<lparr>sf_status := Processing\<rparr> # B"
    and "markSuccess (sf_id x) d c (A @ x\<lparr>sf_status := Processing\<rparr> # B)
           = A @ x\<lparr>sf_status := Success, sf_songDetails := Some d, sf_coverArtFile := Some c\<rparr> # B"
    and "markError (sf_id x) ex (A @ x\<lparr>sf_status := Processing\<rparr> # B)
           = A @ x\<lparr>sf_status := Error,
                       sf_error := Some (orElse (message ex) ''An unknown error occurred'')\<rparr> # B"
  by (simp_all add: markProcessing_def markSuccess_def markError_def
        mark_other[OF assms(1)] mark_other[OF assms(2)])

lemma processItem_distinct:
  assumes "distinct (map sf_id (pre @ x # rest))"
  shows "markProcessing (sf_id x) (map (settle e) pre @ x # rest)
           = map (settle e) pre @ x\<lparr>sf_status := Processing\<rparr> # rest"
    and "markSuccess (sf_id x) d c (map (settle e) pre @ x\<lparr>sf_status := Processing\<rparr> # rest)
           = map (settle e) pre @ x\<lparr>sf_status := Success, sf_songDetails := Some d, sf_coverArtFile := Some c\<rparr> # rest"
    and "markError (sf_id x) ex (map (settle e) pre @ x\<lparr>sf_status := Processing\<rparr> # rest)
           = map (settle e) pre @ x\<lparr>sf_status := Error, sf_error := Some (orElse (message ex) ''An unknown error occurred'')\<rparr> # rest"
proof -
  have a: "\<forall>sf\<in>set (map (settle e) pre). sf_id sf \<noteq> sf_id x"
    using distinct_mid(1)[OF assms(1)] by simp
  have b: "\<forall>sf\<in>set rest. sf_id sf \<noteq> sf_id x"
    using distinct_mid(2)[OF assms(1)] by simp
  show "markProcessing (sf_id x) (map (settle e) pre @ x # rest)
           = map (settle e) pre @ x\<lparr>sf_status := Processing\<rparr> # rest"
    by (rule processItem_marks(1)[OF a b])
  show "markSuccess (sf_id x) d c (map (settle e) pre @ x\<lparr>sf_status := Processing\<rparr> # rest)
           = map (settle e) pre @ x\<lparr>sf_status := Success, sf_songDetails := Some d, sf_coverArtFile := Some c\<rparr> # rest"
    by (rule processItem_marks(2)[OF a b])
  show "markError (sf_id x) ex (map (settle e) pre @ x\<lparr>sf_status := Processing\<rparr> # rest)
           = map (settle e) pre @ x\<lparr>sf_status := Error, sf_error := Some (orElse (message ex) ''An unknown error occurred'')\<rparr> # rest"
    by (rule processItem_marks(3)[OF a b])
qed

lemma processQueue_settle:
  assumes "distinct (map sf_id (pre @ rest))" and "stagedFiles u = map (settle e) pre @ rest"
  shows "stagedFiles (processQueue e rest n u) = map (settle e) (pre @ rest)"
  using assms
proof (induction rest arbitrary: pre n u)
  case Nil
  then show ?case by simp
next
  case (Cons x rest)
  show ?case
  proof (cases "sf_status x = Pending")
    case False
    have "stagedFiles (processQueue e rest (n + 1) (u\<lparr>processedCount := n + 1\<rparr>))
            = map (settle e) ((pre @ [x]) @ rest)"
      using Cons.prems False by (intro Cons.IH) (simp_all add: settle_def)
    with False show ?thesis by simp
  next
    case True
    note marks = processItem_distinct[OF Cons.prems(1), where e = e]
    let ?u1 = "setStagedFiles (markProcessing (sf_id x)) u"
    let ?u2 = "?u1\<lparr>requests := requests ?u1 @ fst (processFile e (sf_file x))\<rparr>"
    let ?u3 = "case snd (processFile e (sf_file x)) of
                 Inr (details, cover) \<Rightarrow> setStagedFiles (markSuccess (sf_id x) details cover) ?u2
               | Inl ex \<Rightarrow> setStagedFiles (markError (sf_id x) ex) ?u2"
    have s3: "stagedFiles ?u3 = map (settle e) (pre @ [x]) @ rest"
    proof (cases "snd (processFile e (sf_file x))")
      case (Inl ex)
      then have "settle e x = x\<lparr>sf_status := Error,
          sf_error := Some (orElse (message ex) ''An unknown error occurred'')\<rparr>"
        using True by (simp add: settle_def)
      with Inl show ?thesis using Cons.prems(2) marks by simp
    next
      case (Inr dc)
      then have "settle e x = x\<lparr>sf_status := Success, sf_songDetails := Some (fst dc),
          sf_coverArtFile := Some (snd dc)\<rparr>"
        using True by (simp add: settle_def split: prod.splits)
      with Inr show ?thesis using Cons.prems(2) marks by (simp split: prod.splits)
    qed
    have "stagedFiles (processQueue e rest (n + 1) (?u3\<lparr>processedCount := n + 1\<rparr>))
            = map (settle e) ((pre @ [x]) @ rest)"
      using Cons.prems(1) s3 by (intro Cons.IH) simp_all
    with True show ?thesis by (simp add: Let_def)
  qed
qed

lemma handleProcessQueue_settle:
  assumes "distinct (map sf_id (stagedFiles u))"
  shows "stagedFiles (handleProcessQueue e u) = map (settle e) (stagedFiles u)"
proof -
  have "stagedFiles (processQueue e (stagedFiles u) 0 (u\<lparr>isProcessing := True, processedCount := 0\<rparr>))
          = map (settle e) ([] @ stagedFiles u)"
    by (rule processQueue_settle) (simp_all add: assms)
  then show ?thesis by (simp add: handleProcessQueue_def)
qed

lemma mark_twice:
  "markError i ex (markProcessing i xs) =
     map (\<lambda>sf. if sf_id sf = i
                then sf\<lparr>sf_status := Error,
                        sf_error := Some (orElse (message ex) ''An unknown error occurred'')\<rparr>
                else sf) xs"
  "markSuccess i d c (markProcessing i xs) =
     map (\<lambda>sf. if sf_id sf = i
                then sf\<lparr>sf_status := Success, sf_songDetails := Some d, sf_coverArtFile := Some c\<rparr>
                else sf) xs"
  by (simp_all add: markError_def markSuccess_def markProcessing_def)

lemma settled_item:
  assumes "sf \<in> set (case r of
                        Inr (details, cover) \<Rightarrow> markSuccess i details cover (markProcessing i xs)
                      | Inl ex \<Rightarrow> markError i ex (markProcessing i xs))"
  shows "(sf \<in> set xs \<and> sf_id sf \<noteq> i) \<or> (sf_id sf = i \<and> terminal (sf_status sf))"
proof (cases r)
  case (Inl ex)
  with assms obtain s where "s \<in> set xs"
    and "sf = (if sf_id s = i
               then s\<lparr>sf_status := Error,
                      sf_error := Some (orElse (message ex) ''An unknown error occurred'')\<rparr>
               else s)"
    by (auto simp: mark_twice)
  then show ?thesis by (cases "sf_id s = i") (simp_all add: terminal_def)
next
  case (Inr dc)
  with assms obtain s where "s \<in> set xs"
    and "sf = (if sf_id s = i
               then s\<lparr>sf_status := Success, sf_songDetails := Some (fst dc),
                      sf_coverArtFile := Some (snd dc)\<rparr>
               else s)"
    by (auto simp: mark_twice split: prod.splits)
  then show ?thesis by (cases "sf_id s = i") (simp_all add: terminal_def)
qed

lemma processQueue_step:
  "sf_status x = Pending \<Longrightarrow>
   processQueue e (x # rest) n u =
     processQueue e rest (n + 1)
       ((case snd (processFile e (sf_file x)) of
           Inr (details, cover) \<Rightarrow>
             setStagedFiles (markSuccess (sf_id x) details cover)
               ((setStagedFiles (markProcessing (sf_id x)) u)
                  \<lparr>requests := requests u @ fst (processFile e (sf_file x))\<rparr>)
         | Inl ex \<Rightarrow>
             setStagedFiles (markError (sf_id x) ex)
               ((setStagedFiles (markProcessing (sf_id x)) u)
                  \<lparr>requests := requests u @ fst (processFile e (sf_file x))\<rparr>))
        \<lparr>processedCount := n + 1\<rparr>)"
  by (simp add: Let_def split: sum.splits)

lemma processQueue_skip:
  "sf_status x \<noteq> Pending \<Longrightarrow>
   processQueue e (x # rest) n u = processQueue e rest (n + 1) (u\<lparr>processedCount := n + 1\<rparr>)"
  by simp

lemma stagedFiles_step:
  "stagedFiles (case r of
                  Inr (details, cover) \<Rightarrow>
                    setStagedFiles (markSuccess i details cover)
                      ((setStagedFiles (markProcessing i) u)\<lparr>requests := q\<rparr>)
                | Inl ex \<Rightarrow>
                    setStagedFiles (markError i ex)
                      ((setStagedFiles (markProcessing i) u)\<lparr>requests := q\<rparr>))
     = (case r of
          Inr (details, cover) \<Rightarrow> markSuccess i details cover (markProcessing i (stagedFiles u))
        | Inl ex \<Rightarrow> markError i ex (markProcessing i (stagedFiles u)))"
  by (simp split: sum.splits prod.splits)

lemma processQueue_terminal:
  assumes "\<forall>sf\<in>set (stagedFiles u). terminal (sf_status sf)
             \<or> (\<exists>x\<in>set rest. sf_id x = sf_id sf \<and> sf_status x = Pending)"
  shows "\<forall>sf\<in>set (stagedFiles (processQueue e rest n u)). terminal (sf_status sf)"
  using assms
proof (induction rest arbitrary: n u)
  case Nil
  then show ?case by simp
next
  case (Cons x rest)
  show ?case
  proof (cases "sf_status x = Pending")
    case False
    have "\<forall>sf\<in>set (stagedFiles (u\<lparr>processedCount := n + 1\<rparr>)). terminal (sf_status sf)
             \<or> (\<exists>y\<in>set rest. sf_id y = sf_id sf \<and> sf_status y = Pending)"
    proof
      fix sf assume "sf \<in> set (stagedFiles (u\<lparr>processedCount := n + 1\<rparr>))"
      then have "terminal (sf_status sf)
             \<or> (\<exists>y\<in>set (x # rest). sf_id y = sf_id sf \<and> sf_status y = Pending)"
        using Cons.prems by auto
      then show "terminal (sf_status sf)
             \<or> (\<exists>y\<in>set rest. sf_id y = sf_id sf \<and> sf_status y = Pending)"
        using False by auto
    qed
    then show ?thesis unfolding processQueue_skip[OF False] by (rule Cons.IH)
  next
    case True
    let ?r = "snd (processFile e (sf_file x))"
    let ?u3 = "(case ?r of
           Inr (details, cover) \<Rightarrow>
             setStagedFiles (markSuccess (sf_id x) details cover)
               ((setStagedFiles (markProcessing (sf_id x)) u)
                  \<lparr>requests := requests u @ fst (processFile e (sf_file x))\<rparr>)
         | Inl ex \<Rightarrow>
             setStagedFiles (markError (sf_id x) ex)
               ((setStagedFiles (markProcessing (sf_id x)) u)
                  \<lparr>requests := requests u @ fst (processFile e (sf_file x))\<rparr>))
        \<lparr>processedCount := n + 1\<rparr>"
    have "\<forall>sf\<in>set (stagedFiles ?u3). terminal (sf_status sf)
             \<or> (\<exists>y\<in>set rest. sf_id y = sf_id sf \<and> sf_status y = Pending)"
    proof
      fix sf assume "sf \<in> set (stagedFiles ?u3)"
      then have "sf \<in> set (case ?r of
                        Inr (details, cover) \<Rightarrow>
                          markSuccess (sf_id x) details cover (markProcessing (sf_id x) (stagedFiles u))
                      | Inl ex \<Rightarrow> markError (sf_id x) ex (markProcessing (sf_id x) (stagedFiles u)))"
        by (simp add: stagedFiles_step)
      then consider "sf \<in> set (stagedFiles u)" "sf_id sf \<noteq> sf_id x" | "terminal (sf_status sf)"
        using settled_item by blast
      then show "terminal (sf_status sf)
             \<or> (\<exists>y\<in>set rest. sf_id y = sf_id sf \<and> sf_status y = Pending)"
      proof cases
        case 1
        then have "terminal (sf_status sf)
             \<or> (\<exists>y\<in>set (x # rest). sf_id y = sf_id sf \<and> sf_status y = Pending)"
          using Cons.prems by blast
        with 1(2) show ?thesis by auto
      next
        case 2
        then show ?thesis by simp
      qed
    qed
    then show ?thesis unfolding processQueue_step[OF True] by (rule Cons.IH)
  qed
qed

lemma processQueue_prompts:
  "prompts (requests (processQueue e rest n u)) =
     prompts (requests u) @
     map (\<lambda>sf. geminiPrompt (name (sf_file sf))) (filter (\<lambda>sf. sf_status sf = Pending) rest)"
  by (induction rest arbitrary: n u)
     (simp_all add: Let_def prompts_processFile split: sum.splits prod.splits)

lemma processQueue_idle:
  assumes "\<forall>sf\<in>set rest. sf_status sf \<noteq> Pending"
  shows "stagedFiles (processQueue e rest n u) = stagedFiles u
         \<and> requests (processQueue e rest n u) = requests u
         \<and> history (processQueue e rest n u) = history u"
  using assms by (induction rest arbitrary: n u) simp_all





lemma mark_ids:
  "map sf_id (markProcessing i xs) = map sf_id xs"
  "map sf_id (markSuccess i d c xs) = map sf_id xs"
  "map sf_id (markError i ex xs) = map sf_id xs"
  by (simp_all add: markProcessing_def markSuccess_def markError_def)



lemma settled_ids:
  "map sf_id (case r of
                Inr (details, cover) \<Rightarrow> markSuccess i details cover (markProcessing i xs)
              | Inl ex \<Rightarrow> markError i ex (markProcessing i xs)) = map sf_id xs"
  by (simp add: mark_ids split: sum.splits prod.splits)

lemma settled_nth:
  assumes "k < length xs"
  shows "(case r of
            Inr (details, cover) \<Rightarrow> markSuccess i details cover (markProcessing i xs)
          | Inl ex \<Rightarrow> markError i ex (markProcessing i xs)) ! k =
         (if sf_id (xs ! k) = i
          then (case r of
                  Inr (details, cover) \<Rightarrow>
                    (xs ! k)\<lparr>sf_status := Success, sf_songDetails := Some details,
                             sf_coverArtFile := Some cover\<rparr>
                | Inl ex \<Rightarrow>
                    (xs ! k)\<lparr>sf_status := Error,
                             sf_error := Some (orElse (message ex) ''An unknown error occurred'')\<rparr>)
          else xs ! k)"
  using assms by (cases r) (simp_all add: mark_twice split: prod.splits)

text \<open>
  An item whose id no other item of the list carries is touched by its own pass through the
  loop only, whatever ids the other items have.
\<close>

lemma processQueue_item_unique:
  assumes "xs = pre @ rest" and "i < length xs"
    and "\<forall>j<length xs. j \<noteq> i \<longrightarrow> sf_id (xs ! j) \<noteq> sf_id (xs ! i)"
    and "map sf_id (stagedFiles u) = map sf_id xs"
    and "stagedFiles u ! i = (if i < length pre then settle e (xs ! i) else xs ! i)"
  shows "stagedFiles (processQueue e rest n u) ! i = settle e (xs ! i)"
  using assms
proof (induction rest arbitrary: pre n u)
  case Nil
  then show ?case by simp
next
  case (Cons x rest)
  have x: "x = xs ! length pre" and k: "length pre < length xs"
    using Cons.prems(1) by simp_all
  have split: "xs = (pre @ [x]) @ rest"
    using Cons.prems(1) by simp
  have len: "length (stagedFiles u) = length xs"
    using Cons.prems(4) by (metis length_map)
  have idi: "sf_id (stagedFiles u ! i) = sf_id (xs ! i)"
    using Cons.prems(2,4) len by (metis nth_map)
  show ?case
  proof (cases "sf_status x = Pending")
    case False
    let ?u' = "u\<lparr>processedCount := n + 1\<rparr>"
    have "stagedFiles ?u' ! i = (if i < length (pre @ [x]) then settle e (xs ! i) else xs ! i)"
    proof (cases "i = length pre")
      case True
      then show ?thesis using Cons.prems(5) False x by (simp add: settle_def)
    next
      case False
      then show ?thesis using Cons.prems(5) by (simp add: less_Suc_eq)
    qed
    moreover have "map sf_id (stagedFiles ?u') = map sf_id xs"
      using Cons.prems(4) by simp
    ultimately have "stagedFiles (processQueue e rest (n + 1) ?u') ! i = settle e (xs ! i)"
      using split Cons.prems(2,3) by (intro Cons.IH[where pre = "pre @ [x]"])
    then show ?thesis unfolding processQueue_skip[OF False] .
  next
    case True
    let ?r = "snd (processFile e (sf_file x))"
    let ?u3 = "(case ?r of
           Inr (details, cover) \<Rightarrow>
             setStagedFiles (markSuccess (sf_id x) details cover)
               ((setStagedFiles (markProcessing (sf_id x)) u)
                  \<lparr>requests := requests u @ fst (processFile e (sf_file x))\<rparr>)
         | Inl ex \<Rightarrow>
             setStagedFiles (markError (sf_id x) ex)
               ((setStagedFiles (markProcessing (sf_id x)) u)
                  \<lparr>requests := requests u @ fst (processFile e (sf_file x))\<rparr>))
        \<lparr>processedCount := n + 1\<rparr>"
    have st: "stagedFiles ?u3 =
        (case ?r of
           Inr (details, cover) \<Rightarrow>
             markSuccess (sf_id x) details cover (markProcessing (sf_id x) (stagedFiles u))
         | Inl ex \<Rightarrow> markError (sf_id x) ex (markProcessing (sf_id x) (stagedFiles u)))"
      by (simp add: stagedFiles_step)
    have ids: "map sf_id (stagedFiles ?u3) = map sf_id xs"
      unfolding st settled_ids by (rule Cons.prems(4))
    have nth: "stagedFiles ?u3 ! i =
        (if sf_id (xs ! i) = sf_id x
         then (case ?r of
                 Inr (details, cover) \<Rightarrow>
                   (stagedFiles u ! i)\<lparr>sf_status := Success, sf_songDetails := Some details,
                                        sf_coverArtFile := Some cover\<rparr>
               | Inl ex \<Rightarrow>
                   (stagedFiles u ! i)\<lparr>sf_status := Error,
                      sf_error := Some (orElse (message ex) ''An unknown error occurred'')\<rparr>)
         else stagedFiles u ! i)"
      unfolding st using settled_nth[where k = i and xs = "stagedFiles u" and r = ?r and i = "sf_id x"] Cons.prems(2) len idi
      by simp
    have "stagedFiles ?u3 ! i = (if i < length (pre @ [x]) then settle e (xs ! i) else xs ! i)"
    proof (cases "i = length pre")
      case here: True
      then have "xs ! i = x" and "stagedFiles u ! i = x"
        using x Cons.prems(5) by simp_all
      then show ?thesis
        unfolding nth using True here
        by (simp add: settle_def split: sum.splits prod.splits)
    next
      case other: False
      then have "sf_id x \<noteq> sf_id (xs ! i)"
        using Cons.prems(3) k x by blast
      then show ?thesis
        unfolding nth using other Cons.prems(5) by (simp add: less_Suc_eq)
    qed
    then have "stagedFiles (processQueue e rest (n + 1) ?u3) ! i = settle e (xs ! i)"
      using split Cons.prems(2,3) ids by (intro Cons.IH[where pre = "pre @ [x]"])
    then show ?thesis unfolding processQueue_step[OF True] .
  qed
qed

lemma handleProcessQueue_item_unique:
  assumes "i < length (stagedFiles u)"
    and "\<forall>j<length (stagedFiles u). j \<noteq> i \<longrightarrow>
           sf_id (stagedFiles u ! j) \<noteq> sf_id (stagedFiles u ! i)"
  shows "stagedFiles (handleProcessQueue e u) ! i = settle e (stagedFiles u ! i)"
proof -
  have "stagedFiles (processQueue e (stagedFiles u) 0 (u\<lparr>isProcessing := True, processedCount := 0\<rparr>)) ! i
          = settle e (stagedFiles u ! i)"
    by (rule processQueue_item_unique[where pre = "[]"]) (simp_all add: assms)
  then show ?thesis by (simp add: handleProcessQueue_def)
qed

section \<open>Re-running and completing a batch\<close>

lemma handleProcessQueue_prompts:
  "prompts (requests (handleProcessQueue e u)) =
     prompts (requests u) @
     map (\<lambda>sf. geminiPrompt (name (sf_file sf))) (filter (\<lambda>sf. sf_status sf = Pending) (stagedFiles u))"
  by (simp add: handleProcessQueue_def processQueue_prompts)

lemma handleProcessQueue_idle:
  assumes "\<forall>sf\<in>set (stagedFiles u). sf_status sf \<noteq> Pending"
  shows "stagedFiles (handleProcessQueue e u) = stagedFiles u"
    and "requests (handleProcessQueue e u) = requests u"
    and "history (handleProcessQueue e u) = history u"
  using processQueue_idle[OF assms, of e 0 "u\<lparr>isProcessing := True, processedCount := 0\<rparr>"]
  by (simp_all add: handleProcessQueue_def)

lemma itunesSearchUrl_https: "take 8 (itunesSearchUrl t) = ''https://''"
  by (simp add: itunesSearchUrl_def)

lemma settle_skips: "sf_status sf \<noteq> Pending \<Longrightarrow> settle e sf = sf"
  by (simp add: settle_def)

text \<open>
  C1, as the code has it. A run of the batch processor attempts exactly the items that are
  \<^verbatim>\<open>pending\<close>, in order: an \<^verbatim>\<open>error\<close> item is skipped like a \<^verbatim>\<open>success\<close> item. On a
  list without pending items the run makes no request and sets no state; and when the ids are
  distinct, every item that is not pending is left as it was.
\<close>

theorem C1_reprocess_attempts_pending_only:
  "prompts (requests (handleProcessQueue e u)) =
     prompts (requests u) @
     map (\<lambda>sf. geminiPrompt (name (sf_file sf)))
         (filter (\<lambda>sf. sf_status sf = Pending) (stagedFiles u))
   \<and> ((\<forall>sf\<in>set (stagedFiles u). sf_status sf \<noteq> Pending) \<longrightarrow>
        stagedFiles (handleProcessQueue e u) = stagedFiles u
        \<and> requests (handleProcessQueue e u) = requests u
        \<and> history (handleProcessQueue e u) = history u)
   \<and> (distinct (map sf_id (stagedFiles u)) \<longrightarrow>
        (\<forall>i<length (stagedFiles u). sf_status (stagedFiles u ! i) \<noteq> Pending \<longrightarrow>
           stagedFiles (handleProcessQueue e u) ! i = stagedFiles u ! i))"
proof (intro conjI impI allI)
  show "prompts (requests (handleProcessQueue e u)) =
     prompts (requests u) @
     map (\<lambda>sf. geminiPrompt (name (sf_file sf)))
         (filter (\<lambda>sf. sf_status sf = Pending) (stagedFiles u))"
    by (rule handleProcessQueue_prompts)
next
  assume idle: "\<forall>sf\<in>set (stagedFiles u). sf_status sf \<noteq> Pending"
  show "stagedFiles (handleProcessQueue e u) = stagedFiles u"
    by (rule handleProcessQueue_idle(1)[OF idle])
  show "requests (handleProcessQueue e u) = requests u"
    by (rule handleProcessQueue_idle(2)[OF idle])
  show "history (handleProcessQueue e u) = history u"
    by (rule handleProcessQueue_idle(3)[OF idle])
next
  fix i
  assume "distinct (map sf_id (stagedFiles u))" and "i < length (stagedFiles u)"
    and "sf_status (stagedFiles u ! i) \<noteq> Pending"
  then show "stagedFiles (handleProcessQueue e u) ! i = stagedFiles u ! i"
    by (simp add: handleProcessQueue_settle settle_skips)
qed

text \<open>
  The claim as stated fails. Take a world where every step succeeds, so that an attempt on
  \<^verbatim>\<open>b.mp3\<close> would end in \<^verbatim>\<open>success\<close>: a run over a list with one \<^verbatim>\<open>success\<close> item and
  the \<^verbatim>\<open>error\<close> item for \<^verbatim>\<open>b.mp3\<close> makes no request at all, and the second item is still
  in \<^verbatim>\<open>error\<close> with its old message.
\<close>

theorem C1_error_item_not_retried:
  "snd (processFile beatlesEnv (mp3 ''b.mp3'')) =
     Inr (\<lparr>title = ''Yesterday'', artist = ''The Beatles'', album = ''Help!''\<rparr>,
          coverFile beatlesEnv jpeg)
   \<and> requests (handleProcessQueue beatlesEnv doneAndFailed) = []
   \<and> sf_status (stagedFiles (handleProcessQueue beatlesEnv doneAndFailed) ! 1) = Error
   \<and> sf_error (stagedFiles (handleProcessQueue beatlesEnv doneAndFailed) ! 1)
       = Some ''iTunes search failed.''"
proof -
  have "snd (processFile beatlesEnv (mp3 ''b.mp3'')) =
     Inr (\<lparr>title = ''Yesterday'', artist = ''The Beatles'', album = ''Help!''\<rparr>,
          coverFile beatlesEnv jpeg)"
    by (simp add: processFile_def fetchArtwork_def beatlesEnv_def mp3_def
          yesterday_def catalogOf_def helpTrack_def highRes_def Let_def artOk_def
          itunesSearchUrl_https)
  moreover have "requests (handleProcessQueue beatlesEnv doneAndFailed) = []
   \<and> sf_status (stagedFiles (handleProcessQueue beatlesEnv doneAndFailed) ! 1) = Error
   \<and> sf_error (stagedFiles (handleProcessQueue beatlesEnv doneAndFailed) ! 1)
       = Some ''iTunes search failed.''"
    by (simp add: handleProcessQueue_def doneAndFailed_def bulk_def staged_def)
  ultimately show ?thesis by simp
qed

theorem C1_reprocess_witness:
  "map sf_status (stagedFiles doneAndFailed) = [Success, Error]
   \<and> distinct (map sf_id (stagedFiles doneAndFailed))
   \<and> (1::nat) < length (stagedFiles doneAndFailed)
   \<and> sf_status (stagedFiles doneAndFailed ! 1) \<noteq> Pending
   \<and> prompts (requests (handleProcessQueue beatlesEnv doneAndFailed)) = []
   \<and> stagedFiles (handleProcessQueue beatlesEnv doneAndFailed) = stagedFiles doneAndFailed
   \<and> stagedFiles (handleProcessQueue beatlesEnv doneAndFailed) ! 1 = stagedFiles doneAndFailed ! 1"
proof -
  have a: "\<forall>sf\<in>set (stagedFiles doneAndFailed). sf_status sf \<noteq> Pending"
    by (simp add: doneAndFailed_def bulk_def staged_def)
  have b: "distinct (map sf_id (stagedFiles doneAndFailed))"
    by (simp add: doneAndFailed_def bulk_def staged_def)
  have c: "(1::nat) < length (stagedFiles doneAndFailed)"
    by (simp add: doneAndFailed_def bulk_def)
  have d: "sf_status (stagedFiles doneAndFailed ! 1) \<noteq> Pending"
    by (simp add: doneAndFailed_def bulk_def staged_def)
  have e: "prompts (requests doneAndFailed) = []"
    by (simp add: doneAndFailed_def bulk_def prompts_def)
  have g: "map sf_status (stagedFiles doneAndFailed) = [Success, Error]"
    by (simp add: doneAndFailed_def bulk_def staged_def)
  have f: "filter (\<lambda>sf. sf_status sf = Pending) (stagedFiles doneAndFailed) = []"
    using a by (simp add: filter_empty_conv)
  show ?thesis
    using C1_reprocess_attempts_pending_only[of beatlesEnv doneAndFailed] a b c d e f g by simp
qed

text \<open>
  C2. When every staged item is \<^verbatim>\<open>pending\<close>, the run ends with every item in \<^verbatim>\<open>success\<close>
  or \<^verbatim>\<open>error\<close>; no item is added or dropped; every file was attempted, in the order of the
  list, whatever happened to the files before it; the counter equals the number of items and
  the processing flag is down.
\<close>

theorem C2_all_pending_batch_settles:
  assumes "\<forall>sf\<in>set (stagedFiles u). sf_status sf = Pending"
  shows "(\<forall>sf\<in>set (stagedFiles (handleProcessQueue e u)).
            sf_status sf = Success \<or> sf_status sf = Error)
         \<and> length (stagedFiles (handleProcessQueue e u)) = length (stagedFiles u)
         \<and> prompts (requests (handleProcessQueue e u)) =
             prompts (requests u) @ map (\<lambda>sf. geminiPrompt (name (sf_file sf))) (stagedFiles u)
         \<and> processedCount (handleProcessQueue e u) = length (stagedFiles u)
         \<and> \<not> isProcessing (handleProcessQueue e u)"
proof -
  let ?u0 = "u\<lparr>isProcessing := True, processedCount := 0\<rparr>"
  have "\<forall>sf\<in>set (stagedFiles ?u0). terminal (sf_status sf)
          \<or> (\<exists>x\<in>set (stagedFiles u). sf_id x = sf_id sf \<and> sf_status x = Pending)"
    using assms by auto
  then have "\<forall>sf\<in>set (stagedFiles (processQueue e (stagedFiles u) 0 ?u0)). terminal (sf_status sf)"
    by (rule processQueue_terminal)
  then have t: "\<forall>sf\<in>set (stagedFiles (handleProcessQueue e u)).
                  sf_status sf = Success \<or> sf_status sf = Error"
    by (simp add: handleProcessQueue_def terminal_def)
  have l: "length (stagedFiles (handleProcessQueue e u)) = length (stagedFiles u)"
    by (simp add: handleProcessQueue_def processQueue_length)
  have "filter (\<lambda>sf. sf_status sf = Pending) (stagedFiles u) = stagedFiles u"
    using assms by simp
  then have p: "prompts (requests (handleProcessQueue e u)) =
             prompts (requests u) @ map (\<lambda>sf. geminiPrompt (name (sf_file sf))) (stagedFiles u)"
    by (simp add: handleProcessQueue_prompts)
  have c: "processedCount (handleProcessQueue e u) = length (stagedFiles u)"
    by (simp add: handleProcessQueue_def processQueue_processedCount)
  have i: "\<not> isProcessing (handleProcessQueue e u)"
    by (simp add: handleProcessQueue_def)
  from t l p c i show ?thesis by blast
qed

text \<open>
  Two pending files, the first of which fails at the model call: the first ends in
  \<^verbatim>\<open>error\<close>, the second is still processed and ends in \<^verbatim>\<open>success\<close>.
\<close>

theorem C2_all_pending_batch_settles_witness:
  "map sf_status (stagedFiles twoPending) = [Pending, Pending]
   \<and> list_all (\<lambda>sf. sf_status sf = Success \<or> sf_status sf = Error)
        (stagedFiles (handleProcessQueue flakyEnv twoPending))
   \<and> map sf_status (stagedFiles (handleProcessQueue flakyEnv twoPending)) = [Error, Success]
   \<and> prompts (requests (handleProcessQueue flakyEnv twoPending))
       = [geminiPrompt ''a.mp3'', geminiPrompt ''b.mp3'']
   \<and> processedCount (handleProcessQueue flakyEnv twoPending) = 2"
proof -
  have a: "\<forall>sf\<in>set (stagedFiles twoPending). sf_status sf = Pending"
    by (simp add: twoPending_def bulk_def staged_def)
  have d: "distinct (map sf_id (stagedFiles twoPending))"
    by (simp add: twoPending_def bulk_def staged_def)
  have fa: "snd (processFile flakyEnv (mp3 ''a.mp3'')) = Inl (Thrown None)"
    by (simp add: processFile_def flakyEnv_def mp3_def)
  have fb: "snd (processFile flakyEnv (mp3 ''b.mp3''))
              = Inr (\<lparr>title = ''Yesterday'', artist = ''The Beatles'', album = ''Help!''\<rparr>,
                     coverFile flakyEnv jpeg)"
    by (simp add: processFile_def fetchArtwork_def flakyEnv_def mp3_def geminiPrompt_def
          yesterday_def catalogOf_def helpTrack_def highRes_def Let_def artOk_def
          itunesSearchUrl_https)
  have s: "map sf_status (stagedFiles (handleProcessQueue flakyEnv twoPending)) = [Error, Success]"
    unfolding handleProcessQueue_settle[OF d]
    by (simp add: twoPending_def bulk_def staged_def settle_def fa fb)
  have p: "prompts (requests twoPending) = []"
    by (simp add: twoPending_def bulk_def prompts_def)
  have n: "map (\<lambda>sf. geminiPrompt (name (sf_file sf))) (stagedFiles twoPending)
             = [geminiPrompt ''a.mp3'', geminiPrompt ''b.mp3'']"
    by (simp add: twoPending_def bulk_def staged_def mp3_def)
  have k: "length (stagedFiles twoPending) = 2"
    by (simp add: twoPending_def bulk_def)
  have b: "map sf_status (stagedFiles twoPending) = [Pending, Pending]"
    by (simp add: twoPending_def bulk_def staged_def)
  show ?thesis
    using C2_all_pending_batch_settles[OF a, of flakyEnv] b s p n k by (simp add: list_all_iff)
qed

section \<open>The status of a staged file only moves forward\<close>













lemma forward_cases:
  "forward a b = (case a of Pending \<Rightarrow> b = Pending \<or> b = Processing
                          | Processing \<Rightarrow> b = Processing \<or> b = Success \<or> b = Error
                          | Success \<Rightarrow> b = Success
                          | Error \<Rightarrow> b = Error)"
  by (cases a; cases b) (simp_all add: forward_def terminal_def)


section \<open>The steps of \<^verbatim>\<open>processFile\<close>\<close>

lemma js_replace_nonempty: "rep \<noteq> [] \<Longrightarrow> s \<noteq> [] \<Longrightarrow> js_replace pat rep s \<noteq> []"
  by (cases s) simp_all

lemma highRes_empty: "highRes art = [] \<longleftrightarrow> \<not> truthy art"
proof (cases art)
  case None
  then show ?thesis by (simp add: highRes_def)
next
  case (Some s)
  then show ?thesis
    using js_replace_nonempty[of "''600x600''" s "''100x100''"]
    by (cases "s = []") (simp_all add: highRes_def)
qed

lemma highRes_Some: "highRes (Some art) = js_replace ''100x100'' ''600x600'' art"
  by (simp add: highRes_def)

lemma processFile_top_result:
  assumes "generateContent e (geminiPrompt (name f)) = Inr g"
    and "g_title g = Some t" and "t \<noteq> []" and "g_artist g = Some a" and "a \<noteq> []"
    and "fetch e (itunesSearchUrl (a @ '' '' @ t)) = Inr resp" and "ok resp"
    and "json resp = Inr dat" and "resultCount dat \<noteq> 0" and "results dat = songData # others"
  shows "processFile e f =
           fetchArtwork e [GenerateContent (geminiPrompt (name f)),
                           Fetch (itunesSearchUrl (a @ '' '' @ t))]
             \<lparr>title = orElse (trackName songData) t,
              artist = orElse (artistName songData) a,
              album = orElse (collectionName songData) t\<rparr>
             songData"
  using assms by (simp add: processFile_def Let_def)

lemma processFile_no_match:
  assumes "generateContent e (geminiPrompt (name f)) = Inr g"
    and "g_title g = Some t" and "t \<noteq> []" and "g_artist g = Some a" and "a \<noteq> []"
    and "fetch e (itunesSearchUrl (a @ '' '' @ t)) = Inr resp" and "ok resp"
    and "json resp = Inr dat" and "resultCount dat = 0"
  shows "processFile e f =
           ([GenerateContent (geminiPrompt (name f)), Fetch (itunesSearchUrl (a @ '' '' @ t))],
            Inl (new_Error ''Song not found on iTunes.''))"
  using assms by (simp add: processFile_def Let_def)

lemma handleProcessQueue_item:
  assumes "distinct (map sf_id (stagedFiles u))" and "i < length (stagedFiles u)"
  shows "stagedFiles (handleProcessQueue e u) ! i = settle e (stagedFiles u ! i)"
  using assms by (simp add: handleProcessQueue_settle)

lemma settle_error:
  assumes "sf_status sf = Pending" and "snd (processFile e (sf_file sf)) = Inl (new_Error msg)"
    and "msg \<noteq> []"
  shows "settle e sf = sf\<lparr>sf_status := Error, sf_error := Some msg\<rparr>"
  using assms by (simp add: settle_def new_Error_def)

lemma settle_success:
  assumes "sf_status sf = Pending" and "snd (processFile e (sf_file sf)) = Inr (d, c)"
  shows "settle e sf = sf\<lparr>sf_status := Success, sf_songDetails := Some d, sf_coverArtFile := Some c\<rparr>"
  using assms by (simp add: settle_def)





section \<open>Failures of a single item\<close>

lemma splitEnv_other_file:
  "snd (processFile (splitEnv r) (mp3 ''b.mp3'')) =
     Inr (\<lparr>title = ''Yesterday'', artist = ''The Beatles'', album = ''Help!''\<rparr>,
          coverFile (splitEnv r) jpeg)"
proof -
  have p: "geminiPrompt ''b.mp3'' \<noteq> geminiPrompt ''a.mp3''"
    by (simp add: geminiPrompt_def)
  have u: "itunesSearchUrl ''The Beatles Yesterday'' \<noteq> itunesSearchUrl ''Nobody Obscure''"
    by (simp add: itunesSearchUrl_def encodeURIComponent_def unreserved_def)
  have v: "''http://x/600x600bb.jpg'' \<noteq> itunesSearchUrl ''Nobody Obscure''"
  proof
    assume "''http://x/600x600bb.jpg'' = itunesSearchUrl ''Nobody Obscure''"
    then have "take 8 ''http://x/600x600bb.jpg'' = ''https://''"
      by (simp add: itunesSearchUrl_https)
    then show False by simp
  qed
  show ?thesis
    by (simp add: processFile_def fetchArtwork_def splitEnv_def mp3_def p u v
          yesterday_def catalogOf_def helpTrack_def highRes_def Let_def artOk_def
          itunesSearchUrl_https)
qed

lemma twins_overridden:
  assumes "snd (processFile (splitEnv r) (mp3 ''a.mp3'')) = Inl ex"
  shows "map sf_status (stagedFiles (handleProcessQueue (splitEnv r) twins)) = [Success, Success]"
  by (simp add: handleProcessQueue_def twins_def bulk_def staged_def Let_def
        assms splitEnv_other_file markProcessing_def markSuccess_def markError_def)

text \<open>
  C4, as the code has it. Take a pending item whose id no other staged item carries. When its
  catalog search answers with a count of zero, \<^verbatim>\<open>processFile\<close> throws the fixed text
  \<^verbatim>\<open>Song not found on iTunes.\<close>, and the item ends in \<^verbatim>\<open>error\<close> with that text attached
  and nothing else changed.
\<close>

theorem C4_no_match_fixed_message:
  assumes "i < length (stagedFiles u)"
    and "\<forall>j<length (stagedFiles u). j \<noteq> i \<longrightarrow>
           sf_id (stagedFiles u ! j) \<noteq> sf_id (stagedFiles u ! i)"
    and "sf_status (stagedFiles u ! i) = Pending"
    and "generateContent e (geminiPrompt (name (sf_file (stagedFiles u ! i)))) = Inr g"
    and "g_title g = Some t" and "t \<noteq> []" and "g_artist g = Some a" and "a \<noteq> []"
    and "fetch e (itunesSearchUrl (a @ '' '' @ t)) = Inr resp" and "ok resp"
    and "json resp = Inr dat" and "resultCount dat = 0"
  shows "snd (processFile e (sf_file (stagedFiles u ! i))) = Inl (new_Error ''Song not found on iTunes.'')
         \<and> stagedFiles (handleProcessQueue e u) ! i =
             (stagedFiles u ! i)\<lparr>sf_status := Error, sf_error := Some ''Song not found on iTunes.''\<rparr>"
proof -
  have run: "snd (processFile e (sf_file (stagedFiles u ! i))) = Inl (new_Error ''Song not found on iTunes.'')"
    using processFile_no_match[OF assms(4-12)] by simp
  then have "settle e (stagedFiles u ! i) =
           (stagedFiles u ! i)\<lparr>sf_status := Error, sf_error := Some ''Song not found on iTunes.''\<rparr>"
    using assms(3) by (intro settle_error) simp_all
  then have "stagedFiles (handleProcessQueue e u) ! i =
             (stagedFiles u ! i)\<lparr>sf_status := Error, sf_error := Some ''Song not found on iTunes.''\<rparr>"
    using handleProcessQueue_item_unique[OF assms(1,2)] by simp
  with run show ?thesis by simp
qed

text \<open>
  The claim as stated fails twice. The model extracts the title Yesterday, the catalog has no
  match, and the message of the item does not contain that title. And of two pending items
  with one id, the first has no match in the catalog and still ends in \<^verbatim>\<open>success\<close>, because
  the outcome of the second is written to both.
\<close>

theorem C4_message_lacks_title:
  "sf_status (stagedFiles (handleProcessQueue missEnv oneStaged) ! 0) = Error
   \<and> sf_error (stagedFiles (handleProcessQueue missEnv oneStaged) ! 0)
       = Some ''Song not found on iTunes.''
   \<and> \<not> js_includes ''Song not found on iTunes.'' ''Yesterday''
   \<and> map sf_id (stagedFiles twins) = [''1'', ''1'']
   \<and> map sf_status (stagedFiles twins) = [Pending, Pending]
   \<and> snd (processFile (splitEnv (catalogOf 0 [])) (sf_file (stagedFiles twins ! 0)))
       = Inl (new_Error ''Song not found on iTunes.'')
   \<and> map sf_status (stagedFiles (handleProcessQueue (splitEnv (catalogOf 0 [])) twins))
       = [Success, Success]"
proof -
  have one: "sf_status (stagedFiles (handleProcessQueue missEnv oneStaged) ! 0) = Error
   \<and> sf_error (stagedFiles (handleProcessQueue missEnv oneStaged) ! 0)
       = Some ''Song not found on iTunes.''
   \<and> \<not> js_includes ''Song not found on iTunes.'' ''Yesterday''"
    by (simp add: handleProcessQueue_def oneStaged_def bulk_def staged_def Let_def
        processFile_def missEnv_def yesterday_def catalogOf_def mp3_def
        markProcessing_def markError_def new_Error_def)
  have t: "map sf_id (stagedFiles twins) = [''1'', ''1'']"
    "map sf_status (stagedFiles twins) = [Pending, Pending]"
    "sf_file (stagedFiles twins ! 0) = mp3 ''a.mp3''"
    by (simp_all add: twins_def bulk_def staged_def)
  have a: "snd (processFile (splitEnv (catalogOf 0 [])) (mp3 ''a.mp3''))
             = Inl (new_Error ''Song not found on iTunes.'')"
    by (simp add: processFile_def splitEnv_def mp3_def obscure_def catalogOf_def Let_def)
  show ?thesis
    using one t a twins_overridden[OF a] by simp
qed

theorem C4_no_match_fixed_message_witness:
  "(0::nat) < length (stagedFiles oneStaged) \<and> map sf_id (stagedFiles oneStaged) = [''1'']
   \<and> sf_status (stagedFiles oneStaged ! 0) = Pending
   \<and> resultCount \<lparr>resultCount = 0, results = []\<rparr> = 0
   \<and> snd (processFile missEnv (mp3 ''a.mp3'')) = Inl (new_Error ''Song not found on iTunes.'')
   \<and> stagedFiles (handleProcessQueue missEnv oneStaged) ! 0 =
       (staged ''1'' ''a.mp3'')\<lparr>sf_status := Error, sf_error := Some ''Song not found on iTunes.''\<rparr>"
proof -
  have l: "(0::nat) < length (stagedFiles oneStaged)"
    and q: "\<forall>j<length (stagedFiles oneStaged). j \<noteq> 0 \<longrightarrow>
              sf_id (stagedFiles oneStaged ! j) \<noteq> sf_id (stagedFiles oneStaged ! 0)"
    and p: "sf_status (stagedFiles oneStaged ! 0) = Pending"
    and x: "stagedFiles oneStaged ! 0 = staged ''1'' ''a.mp3''"
    and n: "sf_file (stagedFiles oneStaged ! 0) = mp3 ''a.mp3''"
    and s: "map sf_id (stagedFiles oneStaged) = [''1'']"
    by (simp_all add: oneStaged_def bulk_def staged_def)
  have g: "generateContent missEnv (geminiPrompt (name (sf_file (stagedFiles oneStaged ! 0)))) = Inr yesterday"
    by (simp add: missEnv_def)
  have f: "fetch missEnv (itunesSearchUrl (''The Beatles'' @ '' '' @ ''Yesterday'')) = Inr (catalogOf 0 [])"
    by (simp add: missEnv_def)
  have c: "snd (processFile missEnv (sf_file (stagedFiles oneStaged ! 0))) = Inl (new_Error ''Song not found on iTunes.'')
         \<and> stagedFiles (handleProcessQueue missEnv oneStaged) ! 0 =
             (stagedFiles oneStaged ! 0)\<lparr>sf_status := Error, sf_error := Some ''Song not found on iTunes.''\<rparr>"
    using C4_no_match_fixed_message[OF l q p g _ _ _ _ f, where dat = "\<lparr>resultCount = 0, results = []\<rparr>"]
    by (simp add: yesterday_def catalogOf_def)
  from c have c1: "snd (processFile missEnv (mp3 ''a.mp3'')) = Inl (new_Error ''Song not found on iTunes.'')"
    unfolding n by (rule conjunct1)
  from c have c2: "stagedFiles (handleProcessQueue missEnv oneStaged) ! 0 =
       (staged ''1'' ''a.mp3'')\<lparr>sf_status := Error, sf_error := Some ''Song not found on iTunes.''\<rparr>"
    unfolding x by (rule conjunct2)
  from l s p c1 c2 show ?thesis by simp
qed

text \<open>
  C5, as the code has it. Take a pending item whose id no other staged item carries, and let
  the run for its file reach a top result. If the record carries no artwork URL (none, or the
  empty string), \<^verbatim>\<open>processFile\<close> throws \<^verbatim>\<open>Cover art not found.\<close> without requesting any
  artwork, and the item ends in \<^verbatim>\<open>error\<close> with that message. If it carries one, the run
  requests exactly that URL with its first \<^verbatim>\<open>100x100\<close> replaced by \<^verbatim>\<open>600x600\<close>, and whether
  it throws, and which cover file it returns, is decided by this download alone.
\<close>

theorem C5_artwork_url:
  assumes "i < length (stagedFiles u)"
    and "\<forall>j<length (stagedFiles u). j \<noteq> i \<longrightarrow>
           sf_id (stagedFiles u ! j) \<noteq> sf_id (stagedFiles u ! i)"
    and "sf_status (stagedFiles u ! i) = Pending"
    and "generateContent e (geminiPrompt (name (sf_file (stagedFiles u ! i)))) = Inr g"
    and "g_title g = Some t" and "t \<noteq> []" and "g_artist g = Some a" and "a \<noteq> []"
    and "fetch e (itunesSearchUrl (a @ '' '' @ t)) = Inr resp" and "ok resp"
    and "json resp = Inr dat" and "resultCount dat \<noteq> 0" and "results dat = songData # others"
  shows "((artworkUrl100 songData = None \<or> artworkUrl100 songData = Some []) \<longrightarrow>
            processFile e (sf_file (stagedFiles u ! i)) =
              ([GenerateContent (geminiPrompt (name (sf_file (stagedFiles u ! i)))),
                Fetch (itunesSearchUrl (a @ '' '' @ t))],
               Inl (new_Error ''Cover art not found.''))
            \<and> stagedFiles (handleProcessQueue e u) ! i =
                (stagedFiles u ! i)\<lparr>sf_status := Error, sf_error := Some ''Cover art not found.''\<rparr>)
         \<and> (\<forall>art. artworkUrl100 songData = Some art \<and> art \<noteq> [] \<longrightarrow>
               fst (processFile e (sf_file (stagedFiles u ! i))) =
                 [GenerateContent (geminiPrompt (name (sf_file (stagedFiles u ! i)))),
                  Fetch (itunesSearchUrl (a @ '' '' @ t)),
                  Fetch (js_replace ''100x100'' ''600x600'' art)]
               \<and> map_sum id snd (snd (processFile e (sf_file (stagedFiles u ! i)))) =
                   (case fetch e (js_replace ''100x100'' ''600x600'' art) of
                      Inl ex \<Rightarrow> Inl ex
                    | Inr artResponse \<Rightarrow>
                        if ok artResponse
                        then (case blob artResponse of
                                Inl ex \<Rightarrow> Inl ex
                              | Inr artBlob \<Rightarrow> Inr (coverFile e artBlob))
                        else Inl (new_Error ''Failed to download cover art.'')))"
proof (intro conjI impI allI)
  note top = processFile_top_result[OF assms(4-13)]
  {
    assume "artworkUrl100 songData = None \<or> artworkUrl100 songData = Some []"
    then have none: "\<not> truthy (artworkUrl100 songData)"
      by auto
    show run: "processFile e (sf_file (stagedFiles u ! i)) =
              ([GenerateContent (geminiPrompt (name (sf_file (stagedFiles u ! i)))),
                Fetch (itunesSearchUrl (a @ '' '' @ t))],
               Inl (new_Error ''Cover art not found.''))"
      unfolding top using none by (simp add: fetchArtwork_def Let_def highRes_empty)
    have "settle e (stagedFiles u ! i) =
           (stagedFiles u ! i)\<lparr>sf_status := Error, sf_error := Some ''Cover art not found.''\<rparr>"
      using assms(3) run by (intro settle_error) simp_all
    then show "stagedFiles (handleProcessQueue e u) ! i =
                (stagedFiles u ! i)\<lparr>sf_status := Error, sf_error := Some ''Cover art not found.''\<rparr>"
      using handleProcessQueue_item_unique[OF assms(1,2)] by simp
  }
  {
    fix art
    assume some: "artworkUrl100 songData = Some art \<and> art \<noteq> []"
    then have "highRes (artworkUrl100 songData) = js_replace ''100x100'' ''600x600'' art"
      by (simp add: highRes_Some)
    moreover from some have "highRes (artworkUrl100 songData) \<noteq> []"
      unfolding highRes_empty by simp
    ultimately show "fst (processFile e (sf_file (stagedFiles u ! i))) =
                 [GenerateContent (geminiPrompt (name (sf_file (stagedFiles u ! i)))),
                  Fetch (itunesSearchUrl (a @ '' '' @ t)),
                  Fetch (js_replace ''100x100'' ''600x600'' art)]"
      and "map_sum id snd (snd (processFile e (sf_file (stagedFiles u ! i)))) =
                   (case fetch e (js_replace ''100x100'' ''600x600'' art) of
                      Inl ex \<Rightarrow> Inl ex
                    | Inr artResponse \<Rightarrow>
                        if ok artResponse
                        then (case blob artResponse of
                                Inl ex \<Rightarrow> Inl ex
                              | Inr artBlob \<Rightarrow> Inr (coverFile e artBlob))
                        else Inl (new_Error ''Failed to download cover art.''))"
      unfolding top by (simp_all add: fetchArtwork_def Let_def split: sum.splits)
  }
qed

text \<open>
  The claim as stated fails: of two pending items with one id, the first has a match without
  artwork URL, so that \<^verbatim>\<open>processFile\<close> throws \<^verbatim>\<open>Cover art not found.\<close> for its file; yet it
  ends in \<^verbatim>\<open>success\<close>, because the outcome of the second is written to both.
\<close>

theorem C5_twin_hides_missing_artwork:
  "artworkUrl100 (helpTrack\<lparr>artworkUrl100 := None\<rparr>) = None
   \<and> map sf_id (stagedFiles twins) = [''1'', ''1'']
   \<and> map sf_status (stagedFiles twins) = [Pending, Pending]
   \<and> snd (processFile (splitEnv (catalogOf 1 [helpTrack\<lparr>artworkUrl100 := None\<rparr>]))
            (sf_file (stagedFiles twins ! 0)))
       = Inl (new_Error ''Cover art not found.'')
   \<and> map sf_status
        (stagedFiles (handleProcessQueue (splitEnv (catalogOf 1 [helpTrack\<lparr>artworkUrl100 := None\<rparr>])) twins))
       = [Success, Success]"
proof -
  have t: "map sf_id (stagedFiles twins) = [''1'', ''1'']"
    "map sf_status (stagedFiles twins) = [Pending, Pending]"
    "sf_file (stagedFiles twins ! 0) = mp3 ''a.mp3''"
    by (simp_all add: twins_def bulk_def staged_def)
  have a: "snd (processFile (splitEnv (catalogOf 1 [helpTrack\<lparr>artworkUrl100 := None\<rparr>])) (mp3 ''a.mp3''))
             = Inl (new_Error ''Cover art not found.'')"
    by (simp add: processFile_def fetchArtwork_def splitEnv_def mp3_def obscure_def catalogOf_def
          helpTrack_def highRes_def Let_def)
  show ?thesis
    using t a twins_overridden[OF a] by simp
qed

text \<open>
  The example of the specification, where the URL requested is
  \<^verbatim>\<open>http://x/600x600bb.jpg\<close>, and the same match without an artwork URL.
\<close>

theorem C5_artwork_url_witness:
  "(0::nat) < length (stagedFiles oneStaged) \<and> map sf_id (stagedFiles oneStaged) = [''1'']
   \<and> sf_status (stagedFiles oneStaged ! 0) = Pending
   \<and> fst (processFile beatlesEnv (mp3 ''a.mp3'')) =
       [GenerateContent (geminiPrompt ''a.mp3''),
        Fetch (itunesSearchUrl ''The Beatles Yesterday''),
        Fetch ''http://x/600x600bb.jpg'']
   \<and> map_sum id snd (snd (processFile beatlesEnv (mp3 ''a.mp3''))) = Inr (coverFile beatlesEnv jpeg)
   \<and> artworkUrl100 (helpTrack\<lparr>artworkUrl100 := None\<rparr>) = None
   \<and> stagedFiles (handleProcessQueue noArtEnv oneStaged) ! 0 =
       (staged ''1'' ''a.mp3'')\<lparr>sf_status := Error, sf_error := Some ''Cover art not found.''\<rparr>"
proof -
  have l: "(0::nat) < length (stagedFiles oneStaged)"
    and q: "\<forall>j<length (stagedFiles oneStaged). j \<noteq> 0 \<longrightarrow>
              sf_id (stagedFiles oneStaged ! j) \<noteq> sf_id (stagedFiles oneStaged ! 0)"
    and p: "sf_status (stagedFiles oneStaged ! 0) = Pending"
    and x: "stagedFiles oneStaged ! 0 = staged ''1'' ''a.mp3''"
    and n: "sf_file (stagedFiles oneStaged ! 0) = mp3 ''a.mp3''"
    and s: "map sf_id (stagedFiles oneStaged) = [''1'']"
    by (simp_all add: oneStaged_def bulk_def staged_def)
  have g: "generateContent beatlesEnv (geminiPrompt (name (sf_file (stagedFiles oneStaged ! 0)))) = Inr yesterday"
    by (simp add: beatlesEnv_def)
  have f: "fetch beatlesEnv (itunesSearchUrl (''The Beatles'' @ '' '' @ ''Yesterday''))
             = Inr (catalogOf 1 [helpTrack])"
    by (simp add: beatlesEnv_def itunesSearchUrl_https)
  have g': "generateContent noArtEnv (geminiPrompt (name (sf_file (stagedFiles oneStaged ! 0)))) = Inr yesterday"
    by (simp add: noArtEnv_def)
  have f': "fetch noArtEnv (itunesSearchUrl (''The Beatles'' @ '' '' @ ''Yesterday''))
             = Inr (catalogOf 1 [helpTrack\<lparr>artworkUrl100 := None\<rparr>])"
    by (simp add: noArtEnv_def itunesSearchUrl_https)
  have r: "js_replace ''100x100'' ''600x600'' ''http://x/100x100bb.jpg'' = ''http://x/600x600bb.jpg''"
    by simp
  have a: "fetch beatlesEnv ''http://x/600x600bb.jpg'' = Inr artOk"
    by (simp add: beatlesEnv_def)
  have one: "fst (processFile beatlesEnv (mp3 ''a.mp3'')) =
       [GenerateContent (geminiPrompt ''a.mp3''),
        Fetch (itunesSearchUrl ''The Beatles Yesterday''),
        Fetch ''http://x/600x600bb.jpg'']
     \<and> map_sum id snd (snd (processFile beatlesEnv (mp3 ''a.mp3''))) = Inr (coverFile beatlesEnv jpeg)"
    using C5_artwork_url[OF l q p g _ _ _ _ f, where dat = "\<lparr>resultCount = 1, results = [helpTrack]\<rparr>"
        and songData = helpTrack and others = "[]"] n r a
    by (simp add: yesterday_def catalogOf_def helpTrack_def mp3_def artOk_def)
  have two: "stagedFiles (handleProcessQueue noArtEnv oneStaged) ! 0 =
       (staged ''1'' ''a.mp3'')\<lparr>sf_status := Error, sf_error := Some ''Cover art not found.''\<rparr>"
    using C5_artwork_url[OF l q p g' _ _ _ _ f',
        where dat = "\<lparr>resultCount = 1, results = [helpTrack\<lparr>artworkUrl100 := None\<rparr>]\<rparr>"
        and songData = "helpTrack\<lparr>artworkUrl100 := None\<rparr>" and others = "[]"] x
    by (simp add: yesterday_def catalogOf_def)
  show ?thesis using l s p one two by simp
qed

text \<open>
  C6. The bulk pipeline checks the status of the artwork response; \<^verbatim>\<open>handleFetchInfo\<close> of
  the single-song form does not. With an artwork download answered by status 404, the bulk
  item ends in \<^verbatim>\<open>error\<close> with no cover attached, whereas the form takes the body of the
  404 answer as its cover art, mints a preview URL for it and reports no error.
\<close>

theorem C6_fetch_info_keeps_failed_download:
  "sf_status (stagedFiles (handleProcessQueue art404Env oneStaged) ! 0) = Error
   \<and> sf_coverArtFile (stagedFiles (handleProcessQueue art404Env oneStaged) ! 0) = None
   \<and> sf_error (stagedFiles (handleProcessQueue art404Env oneStaged) ! 0)
       = Some ''Failed to download cover art.''
   \<and> fst (handleFetchInfo art404Env (titleOnly, noUrls)) =
       [Fetch (itunesSearchUrl ''Yesterday''), Fetch ''http://x/600x600bb.jpg'']
   \<and> ss_coverArtFile (fst (snd (handleFetchInfo art404Env (titleOnly, noUrls)))) =
       Some \<lparr>name = ''cover.jpg'', lastModified = 0, ftype = ''text/html'', bytes = ''Not Found''\<rparr>
   \<and> ss_coverArtPreview (fst (snd (handleFetchInfo art404Env (titleOnly, noUrls)))) = Some (BlobUrl 0)
   \<and> ss_error (fst (snd (handleFetchInfo art404Env (titleOnly, noUrls)))) = None"
proof -
  have b: "snd (processFile art404Env (mp3 ''a.mp3'')) = Inl (new_Error ''Failed to download cover art.'')"
    by (simp add: processFile_def fetchArtwork_def art404Env_def yesterday_def catalogOf_def
          helpTrack_def highRes_def Let_def art404_def itunesSearchUrl_https)
  have d: "distinct (map sf_id (stagedFiles oneStaged))"
    by (simp add: oneStaged_def bulk_def staged_def)
  have "stagedFiles (handleProcessQueue art404Env oneStaged) ! 0 = settle art404Env (staged ''1'' ''a.mp3'')"
    using handleProcessQueue_item[OF d, of 0 art404Env] by (simp add: oneStaged_def bulk_def)
  then have bulk_item: "stagedFiles (handleProcessQueue art404Env oneStaged) ! 0 =
      (staged ''1'' ''a.mp3'')\<lparr>sf_status := Error, sf_error := Some ''Failed to download cover art.''\<rparr>"
    using b by (simp add: settle_def staged_def new_Error_def)
  have body: "fetchInfoBody art404Env (titleOnly\<lparr>ss_isFetching := True, ss_error := None\<rparr>, noUrls) =
      ([Fetch (itunesSearchUrl ''Yesterday''), Fetch ''http://x/600x600bb.jpg''],
       Inr (titleOnly\<lparr>ss_isFetching := True, ss_error := None,
                      ss_artist := Some ''The Beatles'', ss_album := Some ''Help!'',
                      ss_coverArtFile := Some (coverFile art404Env notFoundPage),
                      ss_coverArtPreview := Some (BlobUrl 0)\<rparr>,
            \<lparr>nextUrl = 1, live = {0}\<rparr>))"
    by (simp add: fetchInfoBody_def fetchInfoArtwork_def art404Env_def titleOnly_def noUrls_def
          catalogOf_def helpTrack_def Let_def createObjectURL_def itunesSearchUrl_https art404_def)
  have form: "handleFetchInfo art404Env (titleOnly, noUrls) =
      ([Fetch (itunesSearchUrl ''Yesterday''), Fetch ''http://x/600x600bb.jpg''],
       titleOnly\<lparr>ss_artist := Some ''The Beatles'', ss_album := Some ''Help!'',
                  ss_coverArtFile := Some (coverFile art404Env notFoundPage),
                  ss_coverArtPreview := Some (BlobUrl 0)\<rparr>,
       \<lparr>nextUrl = 1, live = {0}\<rparr>)"
    unfolding handleFetchInfo_def by (simp add: body Let_def) (simp add: titleOnly_def)
  show ?thesis
    unfolding bulk_item form
    by (simp add: staged_def coverFile_def notFoundPage_def art404Env_def titleOnly_def)
qed

section \<open>Committing songs to the library\<close>

lemma prepareSongs_length:
  "length (fst (prepareSongs p k xs us)) = length xs"
  "length (fst (snd (prepareSongs p k xs us))) = length xs"
  by (induction xs arbitrary: k us) (simp_all add: Let_def)

lemma prepareSongs_ids:
  "map stored_id (fst (prepareSongs p k xs us)) =
     map (\<lambda>kd. isoNow p (fst kd) @ ''-'' @ title (snd kd)) (enumerate k xs)"
  "map song_id (fst (snd (prepareSongs p k xs us))) =
     map (\<lambda>kd. isoNow p (fst kd) @ ''-'' @ title (snd kd)) (enumerate k xs)"
  by (induction xs arbitrary: k us) (simp_all add: Let_def)

lemma prepareSongs_audio:
  "map audioFile (fst (prepareSongs p k xs us)) = map audioFile xs"
  by (induction xs arbitrary: k us) (simp_all add: Let_def)

lemma createObjectURL_fields:
  "fst (createObjectURL f s) = BlobUrl (nextUrl s)"
  "nextUrl (snd (createObjectURL f s)) = Suc (nextUrl s)"
  "live (snd (createObjectURL f s)) = insert (nextUrl s) (live s)"
  by (simp_all add: createObjectURL_def)

lemma songUrls_Cons:
  "songUrls (song # display) = serial (audioSrc song) # serial (coverArtSrc song) # songUrls display"
  by (simp add: songUrls_def)

lemma prepareSongs_nextUrl:
  "nextUrl (snd (snd (prepareSongs p k xs us))) = nextUrl us + 2 * length xs"
  by (induction xs arbitrary: k us) (simp_all add: Let_def createObjectURL_fields)

lemma prepareSongs_live:
  "live (snd (snd (prepareSongs p k xs us))) = live us \<union> {nextUrl us ..< nextUrl us + 2 * length xs}"
proof (induction xs arbitrary: k us)
  case Nil
  show ?case by simp
next
  case (Cons d ds)
  have "insert (Suc (nextUrl us)) (insert (nextUrl us) (live us))
          \<union> {Suc (Suc (nextUrl us)) ..< Suc (Suc (nextUrl us)) + 2 * length ds}
        = live us \<union> {nextUrl us ..< nextUrl us + 2 * length (d # ds)}"
    by auto
  then show ?case
    by (simp add: Let_def Cons.IH createObjectURL_fields)
qed

lemma upt_two: "[n ..< n + 2 * Suc m] = n # Suc n # [Suc (Suc n) ..< Suc (Suc n) + 2 * m]"
proof -
  have "[n ..< n + 2 * Suc m] = n # [Suc n ..< n + 2 * Suc m]"
    by (rule upt_conv_Cons) simp
  also have "[Suc n ..< n + 2 * Suc m] = Suc n # [Suc (Suc n) ..< n + 2 * Suc m]"
    by (rule upt_conv_Cons) simp
  finally show ?thesis by simp
qed

lemma prepareSongs_songUrls:
  "songUrls (fst (snd (prepareSongs p k xs us))) = [nextUrl us ..< nextUrl us + 2 * length xs]"
proof (induction xs arbitrary: k us)
  case Nil
  show ?case by (simp add: songUrls_def)
next
  case (Cons d ds)
  have "songUrls (fst (snd (prepareSongs p k (d # ds) us)))
          = nextUrl us # Suc (nextUrl us)
              # [Suc (Suc (nextUrl us)) ..< Suc (Suc (nextUrl us)) + 2 * length ds]"
    by (simp add: Let_def Cons.IH createObjectURL_fields songUrls_Cons)
  also have "\<dots> = [nextUrl us ..< nextUrl us + 2 * length (d # ds)]"
    using upt_two[of "nextUrl us" "length ds"] by simp
  finally show ?case .
qed

lemmas prepareSongs_urls = prepareSongs_nextUrl prepareSongs_live prepareSongs_songUrls

lemma revokeObjectURL_fields:
  "live (revokeObjectURL url s) = live s - {serial url}"
  "nextUrl (revokeObjectURL url s) = nextUrl s"
  by (cases url; simp)+

lemma revokeAll_Cons:
  "revokeAll (song # display) s =
     revokeAll display (revokeObjectURL (coverArtSrc song) (revokeObjectURL (audioSrc song) s))"
  by (simp add: revokeAll_def)

lemma revokeAll_live: "live (revokeAll display s) = live s - set (songUrls display)"
proof (induction display arbitrary: s)
  case Nil
  show ?case by (simp add: revokeAll_def songUrls_def)
next
  case (Cons song display)
  show ?case
    unfolding revokeAll_Cons Cons.IH
    by (auto simp: revokeObjectURL_fields songUrls_Cons)
qed

lemma revokeAll_nextUrl: "nextUrl (revokeAll display s) = nextUrl s"
  by (induction display arbitrary: s) (simp_all add: revokeAll_def revokeObjectURL_fields)

lemmas revokeAll_fields = revokeAll_live revokeAll_nextUrl

lemma addSongs_failed:
  assumes "txFails p (fst (prepareSongs p 0 xs (urls app)))"
  shows "addSongs p xs app =
           app\<lparr>urls := revokeAll (fst (snd (prepareSongs p 0 xs (urls app))))
                          (snd (snd (prepareSongs p 0 xs (urls app))))\<rparr>"
  using assms by (simp add: addSongs_def addSongsToDB_def Let_def)

lemma addSongs_stored:
  assumes "\<not> txFails p (fst (prepareSongs p 0 xs (urls app)))"
  shows "addSongs p xs app =
           app\<lparr>songs := songs app @ fst (snd (prepareSongs p 0 xs (urls app))),
               db := fold (\<lambda>song m. m(stored_id song \<mapsto> song)) (fst (prepareSongs p 0 xs (urls app))) (db app),
               urls := snd (snd (prepareSongs p 0 xs (urls app)))\<rparr>"
  using assms by (simp add: addSongs_def addSongsToDB_def Let_def)

text \<open>
  C8. When the database transaction of \<^verbatim>\<open>addSongs\<close> fails, the song list and the store are
  as before, and every object URL minted for the new songs (two per song: audio and cover) has
  been revoked: none of them is live afterwards, and the live URLs are those that were live
  before, less the serial numbers the call used. In a browser whose live URLs all have serial
  numbers below the next one, that is exactly the set from before.
\<close>

theorem C8_failed_commit_releases_urls:
  assumes "txFails p (fst (prepareSongs p 0 newSongsData (urls app)))"
  shows "songs (addSongs p newSongsData app) = songs app
         \<and> db (addSongs p newSongsData app) = db app
         \<and> songUrls (fst (snd (prepareSongs p 0 newSongsData (urls app))))
             = [nextUrl (urls app) ..< nextUrl (urls app) + 2 * length newSongsData]
         \<and> live (urls (addSongs p newSongsData app))
             = live (urls app) - {nextUrl (urls app) ..< nextUrl (urls app) + 2 * length newSongsData}
         \<and> ((\<forall>n\<in>live (urls app). n < nextUrl (urls app)) \<longrightarrow>
               live (urls (addSongs p newSongsData app)) = live (urls app))"
proof -
  let ?created = "{nextUrl (urls app) ..< nextUrl (urls app) + 2 * length newSongsData}"
  have l: "live (urls (addSongs p newSongsData app)) = live (urls app) - ?created"
    unfolding addSongs_failed[OF assms]
    by (auto simp: revokeAll_fields prepareSongs_urls)
  have "(\<forall>n\<in>live (urls app). n < nextUrl (urls app)) \<longrightarrow> live (urls app) - ?created = live (urls app)"
    by auto
  with l show ?thesis
    unfolding addSongs_failed[OF assms] by (simp add: prepareSongs_urls)
qed

theorem C8_failed_commit_releases_urls_witness:
  "txFails brokenStore (fst (prepareSongs brokenStore 0 [yesterdayData ''a.mp3''] (urls emptyApp)))
   \<and> songs (addSongs brokenStore [yesterdayData ''a.mp3''] emptyApp) = []
   \<and> songUrls (fst (snd (prepareSongs brokenStore 0 [yesterdayData ''a.mp3''] (urls emptyApp)))) = [0, 1]
   \<and> live (urls (addSongs brokenStore [yesterdayData ''a.mp3''] emptyApp)) = {}"
proof -
  have f: "txFails brokenStore (fst (prepareSongs brokenStore 0 [yesterdayData ''a.mp3''] (urls emptyApp)))"
    by (simp add: brokenStore_def)
  have u: "nextUrl (urls emptyApp) = 0" "live (urls emptyApp) = {}" "songs emptyApp = []"
    by (simp_all add: emptyApp_def noUrls_def)
  have r: "[0 ..< 2] = [0, Suc 0]"
    by (simp add: upt_rec)
  show ?thesis
    using C8_failed_commit_releases_urls[OF f] f u r by simp
qed

text \<open>
  C9. The id of every record that \<^verbatim>\<open>addSongs\<close> builds, for the store and for the song list
  alike, is the ISO text of the time at which its item is reached, a hyphen, and the title of
  the song. Hence two items with the same title reached at the same reading of the clock get
  the same id. When the transaction succeeds, these are the ids that enter the song list.
\<close>

theorem C9_id_is_timestamp_and_title:
  "map stored_id (fst (prepareSongs p 0 xs (urls app))) =
     map (\<lambda>kd. isoNow p (fst kd) @ ''-'' @ title (snd kd)) (enumerate 0 xs)
   \<and> map song_id (fst (snd (prepareSongs p 0 xs (urls app)))) =
     map (\<lambda>kd. isoNow p (fst kd) @ ''-'' @ title (snd kd)) (enumerate 0 xs)
   \<and> (\<forall>i<length xs. \<forall>j<length xs.
         isoNow p i = isoNow p j \<and> title (xs ! i) = title (xs ! j) \<longrightarrow>
           stored_id (fst (prepareSongs p 0 xs (urls app)) ! i)
             = stored_id (fst (prepareSongs p 0 xs (urls app)) ! j))
   \<and> (\<not> txFails p (fst (prepareSongs p 0 xs (urls app))) \<longrightarrow>
         map song_id (songs (addSongs p xs app)) =
           map song_id (songs app)
           @ map (\<lambda>kd. isoNow p (fst kd) @ ''-'' @ title (snd kd)) (enumerate 0 xs))"
proof (intro conjI allI impI)
  show "map stored_id (fst (prepareSongs p 0 xs (urls app))) =
     map (\<lambda>kd. isoNow p (fst kd) @ ''-'' @ title (snd kd)) (enumerate 0 xs)"
    by (rule prepareSongs_ids(1))
  show "map song_id (fst (snd (prepareSongs p 0 xs (urls app)))) =
     map (\<lambda>kd. isoNow p (fst kd) @ ''-'' @ title (snd kd)) (enumerate 0 xs)"
    by (rule prepareSongs_ids(2))
next
  fix i j
  assume i: "i < length xs" and j: "j < length xs"
    and same: "isoNow p i = isoNow p j \<and> title (xs ! i) = title (xs ! j)"
  have nth: "\<And>k. k < length xs \<Longrightarrow>
      stored_id (fst (prepareSongs p 0 xs (urls app)) ! k) = isoNow p k @ ''-'' @ title (xs ! k)"
  proof -
    fix k assume k: "k < length xs"
    then have "stored_id (fst (prepareSongs p 0 xs (urls app)) ! k)
                 = map stored_id (fst (prepareSongs p 0 xs (urls app))) ! k"
      by (simp add: prepareSongs_length)
    also have "\<dots> = isoNow p k @ ''-'' @ title (xs ! k)"
      unfolding prepareSongs_ids(1) using k by (simp add: nth_enumerate_eq)
    finally show "stored_id (fst (prepareSongs p 0 xs (urls app)) ! k) = isoNow p k @ ''-'' @ title (xs ! k)" .
  qed
  show "stored_id (fst (prepareSongs p 0 xs (urls app)) ! i)
             = stored_id (fst (prepareSongs p 0 xs (urls app)) ! j)"
    using nth[OF i] nth[OF j] same by simp
next
  assume ok: "\<not> txFails p (fst (prepareSongs p 0 xs (urls app)))"
  show "map song_id (songs (addSongs p xs app)) =
           map song_id (songs app)
           @ map (\<lambda>kd. isoNow p (fst kd) @ ''-'' @ title (snd kd)) (enumerate 0 xs)"
    unfolding addSongs_stored[OF ok] by (simp add: prepareSongs_ids(2))
qed

text \<open>
  Two different files with the same title, committed while the clock stands still: both songs
  of the library carry one and the same id.
\<close>

theorem C9_id_is_timestamp_and_title_witness:
  "(0::nat) < length [yesterdayData ''a.mp3'', yesterdayData ''b.mp3'']
   \<and> (1::nat) < length [yesterdayData ''a.mp3'', yesterdayData ''b.mp3'']
   \<and> yesterdayData ''a.mp3'' \<noteq> yesterdayData ''b.mp3''
   \<and> isoNow stillClock 0 = isoNow stillClock 1
   \<and> \<not> txFails stillClock
         (fst (prepareSongs stillClock 0 [yesterdayData ''a.mp3'', yesterdayData ''b.mp3''] (urls emptyApp)))
   \<and> map song_id (songs (addSongs stillClock [yesterdayData ''a.mp3'', yesterdayData ''b.mp3''] emptyApp))
       = [''2026-01-01T00:00:00.000Z-Yesterday'', ''2026-01-01T00:00:00.000Z-Yesterday'']"
proof -
  let ?xs = "[yesterdayData ''a.mp3'', yesterdayData ''b.mp3'']"
  have l: "(0::nat) < length ?xs" "(1::nat) < length ?xs"
    by simp_all
  have ok: "\<not> txFails stillClock (fst (prepareSongs stillClock 0 ?xs (urls emptyApp)))"
    by (simp add: stillClock_def)
  have d: "yesterdayData ''a.mp3'' \<noteq> yesterdayData ''b.mp3''"
    by (simp add: yesterdayData_def mp3_def)
  have c: "isoNow stillClock 0 = isoNow stillClock 1"
    by (simp add: stillClock_def)
  have t: "title (yesterdayData ''a.mp3'') = ''Yesterday''" "title (yesterdayData ''b.mp3'') = ''Yesterday''"
    by (simp_all add: yesterdayData_def)
  have n: "map (\<lambda>kd. isoNow stillClock (fst kd) @ ''-'' @ title (snd kd)) (enumerate 0 ?xs)
           = [''2026-01-01T00:00:00.000Z-Yesterday'', ''2026-01-01T00:00:00.000Z-Yesterday'']"
    by (simp add: t) (simp add: stillClock_def)
  have e: "map song_id (songs emptyApp) = []"
    by (simp add: emptyApp_def)
  have "map song_id (songs (addSongs stillClock ?xs emptyApp)) =
          map song_id (songs emptyApp)
          @ map (\<lambda>kd. isoNow stillClock (fst kd) @ ''-'' @ title (snd kd)) (enumerate 0 ?xs)"
    using C9_id_is_timestamp_and_title[of stillClock ?xs emptyApp] ok by blast
  then have "map song_id (songs (addSongs stillClock ?xs emptyApp))
       = [''2026-01-01T00:00:00.000Z-Yesterday'', ''2026-01-01T00:00:00.000Z-Yesterday'']"
    unfolding n e by simp
  with l ok d c show ?thesis by blast
qed

section \<open>Committing a staged batch\<close>

lemma those_map_total:
  assumes "\<forall>x\<in>set xs. f x \<noteq> None"
  shows "\<exists>ys. those (map f xs) = Some ys \<and> map Some ys = map f xs"
  using assms
proof (induction xs)
  case Nil
  show ?case by simp
next
  case (Cons x xs)
  then obtain ys where "those (map f xs) = Some ys" and "map Some ys = map f xs"
    by auto
  moreover from Cons.prems obtain y where "f x = Some y"
    by auto
  ultimately show ?case by simp
qed

lemma toSongData_defined:
  "sf_songDetails sf \<noteq> None \<Longrightarrow> sf_coverArtFile sf \<noteq> None \<Longrightarrow> toSongData sf \<noteq> None"
  by (auto simp: toSongData_def)

text \<open>
  C10. A commit on a list without a \<^verbatim>\<open>success\<close> item returns at once: the component and
  the application, store included, are as before. A commit on a list with at least one
  \<^verbatim>\<open>success\<close> item (each carrying its details and cover) completes; it hands to
  \<^verbatim>\<open>addSongs\<close> the data of the \<^verbatim>\<open>success\<close> items, in order, and of no other item; then the
  staged list is empty, whatever the status of its items was, and the counter is zero.
\<close>

theorem C10_commit_clears_batch:
  "(filter (\<lambda>sf. sf_status sf = Success) (stagedFiles u) = [] \<longrightarrow>
      handleAddSongsToLibrary p (u, app) = Some (u, app))
   \<and> (filter (\<lambda>sf. sf_status sf = Success) (stagedFiles u) \<noteq> []
       \<and> (\<forall>sf\<in>set (stagedFiles u). sf_status sf = Success \<longrightarrow>
             sf_songDetails sf \<noteq> None \<and> sf_coverArtFile sf \<noteq> None) \<longrightarrow>
      (\<exists>u' newSongsData.
          handleAddSongsToLibrary p (u, app) = Some (u', addSongs p newSongsData app)
          \<and> map Some newSongsData
              = map toSongData (filter (\<lambda>sf. sf_status sf = Success) (stagedFiles u))
          \<and> stagedFiles u' = [] \<and> processedCount u' = 0))"
proof (intro conjI impI)
  assume "filter (\<lambda>sf. sf_status sf = Success) (stagedFiles u) = []"
  then show "handleAddSongsToLibrary p (u, app) = Some (u, app)"
    by (simp add: handleAddSongsToLibrary_def)
next
  let ?succ = "filter (\<lambda>sf. sf_status sf = Success) (stagedFiles u)"
  assume a: "?succ \<noteq> []
       \<and> (\<forall>sf\<in>set (stagedFiles u). sf_status sf = Success \<longrightarrow>
             sf_songDetails sf \<noteq> None \<and> sf_coverArtFile sf \<noteq> None)"
  then have "\<forall>sf\<in>set ?succ. toSongData sf \<noteq> None"
    by (simp add: toSongData_defined)
  then obtain ds where ds: "those (map toSongData ?succ) = Some ds" "map Some ds = map toSongData ?succ"
    using those_map_total by blast
  have "handleAddSongsToLibrary p (u, app)
          = Some ((setStagedFiles (\<lambda>_. []) u)\<lparr>processedCount := 0\<rparr>, addSongs p ds app)"
    using a ds(1) by (simp add: handleAddSongsToLibrary_def Let_def)
  with ds(2) show "\<exists>u' newSongsData.
          handleAddSongsToLibrary p (u, app) = Some (u', addSongs p newSongsData app)
          \<and> map Some newSongsData = map toSongData ?succ
          \<and> stagedFiles u' = [] \<and> processedCount u' = 0"
    by (intro exI[of _ "(setStagedFiles (\<lambda>_. []) u)\<lparr>processedCount := 0\<rparr>"] exI[of _ ds]) simp
qed

text \<open>
  A list with one \<^verbatim>\<open>success\<close>, one \<^verbatim>\<open>error\<close> and one \<^verbatim>\<open>pending\<close> item is committed to an
  empty library: the list is emptied and the counter reset, and the library and the store hold
  the one song. A list with only an \<^verbatim>\<open>error\<close> and a \<^verbatim>\<open>pending\<close> item is left as it is.
\<close>

theorem C10_commit_clears_batch_witness:
  "map sf_status (stagedFiles mixedBatch) = [Success, Error, Pending]
   \<and> processedCount mixedBatch = 2
   \<and> map_option (\<lambda>ua. (stagedFiles (fst ua), processedCount (fst ua), map song_id (songs (snd ua))))
        (handleAddSongsToLibrary stillClock (mixedBatch, emptyApp))
       = Some ([], 0, [''2026-01-01T00:00:00.000Z-Yesterday''])
   \<and> filter (\<lambda>sf. sf_status sf = Success) (stagedFiles nothingDone) = []
   \<and> handleAddSongsToLibrary stillClock (nothingDone, emptyApp) = Some (nothingDone, emptyApp)"
proof -
  let ?first = "(staged ''1'' ''a.mp3'')
             \<lparr>sf_status := Success,
              sf_songDetails := Some \<lparr>title = ''Yesterday'', artist = ''The Beatles'', album = ''Help!''\<rparr>,
              sf_coverArtFile := Some (coverFile beatlesEnv jpeg)\<rparr>"
  have st: "map sf_status (stagedFiles mixedBatch) = [Success, Error, Pending]"
    and pc: "processedCount mixedBatch = 2"
    by (simp_all add: mixedBatch_def doneAndFailed_def bulk_def staged_def)
  have succ: "filter (\<lambda>sf. sf_status sf = Success) (stagedFiles mixedBatch) = [?first]"
    by (simp add: mixedBatch_def doneAndFailed_def bulk_def staged_def)
  have hyp: "\<forall>sf\<in>set (stagedFiles mixedBatch). sf_status sf = Success \<longrightarrow>
               sf_songDetails sf \<noteq> None \<and> sf_coverArtFile sf \<noteq> None"
    by (simp add: mixedBatch_def doneAndFailed_def bulk_def staged_def)
  have td: "toSongData ?first = Some (yesterdayData ''a.mp3'')"
    by (simp add: toSongData_def yesterdayData_def staged_def)
  have none: "filter (\<lambda>sf. sf_status sf = Success) (stagedFiles nothingDone) = []"
    by (simp add: nothingDone_def bulk_def staged_def)
  have idle: "handleAddSongsToLibrary stillClock (nothingDone, emptyApp) = Some (nothingDone, emptyApp)"
    using C10_commit_clears_batch[of nothingDone stillClock emptyApp] none by blast
  have "\<exists>u' ds. handleAddSongsToLibrary stillClock (mixedBatch, emptyApp)
                   = Some (u', addSongs stillClock ds emptyApp)
                 \<and> map Some ds = map toSongData [?first]
                 \<and> stagedFiles u' = [] \<and> processedCount u' = 0"
    using C10_commit_clears_batch[of mixedBatch stillClock emptyApp] hyp unfolding succ by blast
  then obtain u' ds where run: "handleAddSongsToLibrary stillClock (mixedBatch, emptyApp)
                   = Some (u', addSongs stillClock ds emptyApp)"
    and ds: "map Some ds = [Some (yesterdayData ''a.mp3'')]"
    and u': "stagedFiles u' = []" "processedCount u' = 0"
    unfolding list.map td by (elim exE conjE) (rule that)
  from ds have ds': "ds = [yesterdayData ''a.mp3'']"
    by (cases ds) auto
  have lib: "map song_id (songs (addSongs stillClock [yesterdayData ''a.mp3''] emptyApp))
               = [''2026-01-01T00:00:00.000Z-Yesterday'']"
    by (simp add: addSongs_stored stillClock_def emptyApp_def Let_def yesterdayData_def)
  have "map_option (\<lambda>ua. (stagedFiles (fst ua), processedCount (fst ua), map song_id (songs (snd ua))))
        (handleAddSongsToLibrary stillClock (mixedBatch, emptyApp))
       = Some ([], 0, [''2026-01-01T00:00:00.000Z-Yesterday''])"
    unfolding run ds' by (simp add: u' lib)
  with st pc none idle show ?thesis by blast
qed

end
